theory Spec2Isabelle
  imports Main "HOL-Library.Monad_Syntax"
begin

section \<open>The intermediate representation\<close>

text \<open>
  The inliner of \<^verbatim>\<open>src/sksl/SkSLInliner.cpp\<close> works on the SkSL program tree. The tree is
  embedded as two datatypes, \<open>expression\<close> and \<open>statement\<close>, with one constructor per node
  kind and the arguments in the order of the C++ constructors the inliner calls. A child held by
  a \<^verbatim>\<open>unique_ptr\<close> that may be null is an \<open>option\<close>.

  References that point upwards in the C++ tree are handles: a \<open>function_ref\<close> stands for a
  \<^verbatim>\<open>const FunctionDeclaration&\<close> and is looked up in a table of declarations, a
  \<open>symtab_ref\<close> stands for the \<^verbatim>\<open>shared_ptr<SymbolTable>\<close> of a block. A
  \<^verbatim>\<open>const Variable*\<close> is the variable's value: two variables are the same when all their
  fields agree.
\<close>

datatype type_kind = kArray | kOtherKind

record sksl_type =
  fTypeName :: string
  typeKind :: type_kind

text \<open>
  \<^verbatim>\<open>Modifiers::fFlags\<close> is a bit mask; a test \<^verbatim>\<open>fFlags & kOut_Flag\<close> asks whether the bit
  is set. The mask is the set of the flags that are set, and \<^verbatim>\<open>Modifiers()\<close> is the empty
  set.
\<close>

datatype flag = kConst_Flag | kIn_Flag | kOut_Flag | kUniform_Flag | kInline_Flag

record modifiers =
  fFlags :: "flag set"

datatype storage = kGlobal_Storage | kInterfaceBlock_Storage | kLocal_Storage | kParameter_Storage

record variable =
  fOffset :: int
  fModifiers :: modifiers
  fName :: string
  fType :: sksl_type
  fStorage :: storage

datatype token_kind = TK_EQ | TK_LOGICALAND | TK_LOGICALOR | TK_OTHER nat

datatype ref_kind = kRead_RefKind | kWrite_RefKind | kReadWrite_RefKind | kPointer_RefKind

type_synonym function_ref = nat

type_synonym symtab_ref = nat

datatype expression =
    BinaryExpression int expression token_kind expression sksl_type
  | BoolLiteral int bool
  | IntLiteral int int
  | FloatLiteral int nat
  | NullLiteral int
  | Constructor int sksl_type "expression list"
  | Defined int
  | ExternalFunctionCall int sksl_type nat "expression list"
  | ExternalValue int nat
  | FieldAccess expression nat nat
  | FunctionCall int sksl_type function_ref "expression list"
  | FunctionReference int "function_ref list"
  | IndexExpression expression expression
  | PrefixExpression token_kind expression
  | PostfixExpression expression token_kind
  | Setting int string
  | Swizzle expression "nat list"
  | TernaryExpression int expression expression expression
  | TypeReference int sksl_type
  | VariableReference int variable ref_kind

datatype statement =
    Block int "statement list" "symtab_ref option" bool
  | BreakStatement int
  | ContinueStatement int
  | DiscardStatement int
  | DoStatement int statement expression
  | ExpressionStatement expression
  | ForStatement int "statement option" "expression option" "expression option" statement
      "symtab_ref option"
  | IfStatement int bool expression statement "statement option"
  | InlineMarker function_ref
  | Nop
  | ReturnStatement int "expression option"
  | SwitchStatement int bool expression "switch_case list" "symtab_ref option"
  | VarDeclaration variable "expression option list" "expression option"
  | VarDeclarationsStatement int sksl_type "statement list"
  | WhileStatement int expression statement
and switch_case = SwitchCase int "expression option" "statement list"

text \<open>
  A \<^verbatim>\<open>FunctionDefinition\<close> refers back to its declaration and owns the body; a
  \<^verbatim>\<open>FunctionDeclaration\<close> has a link to its definition that is null for a function without
  a body. The fields \<^verbatim>\<open>fName\<close> and \<^verbatim>\<open>fModifiers\<close> of the declaration are written
  \<open>fDeclName\<close> and \<open>fDeclModifiers\<close>, the plain names being those of \<open>variable\<close>.
\<close>

record function_definition =
  fDeclaration :: function_ref
  fBody :: statement

record function_declaration =
  fDeclName :: string
  fReturnType :: sksl_type
  fParameters :: "variable list"
  fDeclModifiers :: modifiers
  fDefinition :: "function_definition option"
  fCallCount :: int

type_synonym declarations = "function_ref \<Rightarrow> function_declaration"

record caps =
  canUseDoLoops :: bool

record settings =
  fCaps :: "caps option"
  fInlineThreshold :: int

record sksl_context =
  fVoid_Type :: sksl_type
  fBool_Type :: sksl_type
  fInt_Type :: sksl_type
  fFloat_Type :: sksl_type
  fIntLiteral_Type :: sksl_type
  fFloatLiteral_Type :: sksl_type

definition INT_MAX :: int where
  "INT_MAX = 2147483647"

section \<open>The generic visitor\<close>

text \<open>
  Modelled from the spec: the base class \<^verbatim>\<open>ProgramVisitor\<close> (declared in
  \<^verbatim>\<open>SkSLAnalysis.h\<close>, which is not among the sources). The spec calls it a generic IR
  visitor: its \<^verbatim>\<open>visitStatement\<close> hands every child statement and every child expression
  of a node to the overridable \<^verbatim>\<open>visitStatement\<close> and \<^verbatim>\<open>visitExpression\<close>, its
  \<^verbatim>\<open>visitExpression\<close> does so for every child expression, a leaf gives \<open>false\<close>, and
  \<^verbatim>\<open>visitProgramElement\<close> of a function definition visits its body. The three functions
  below list the children that are handed on.
\<close>

fun case_statements :: "switch_case \<Rightarrow> statement list" where
  "case_statements (SwitchCase off v ss) = ss"

fun case_value :: "switch_case \<Rightarrow> expression option" where
  "case_value (SwitchCase off v ss) = v"

fun present :: "'a option \<Rightarrow> 'a list" where
  "present None = []"
| "present (Some x) = [x]"

fun child_statements :: "statement \<Rightarrow> statement list" where
  "child_statements (Block off ss syms sc) = ss"
| "child_statements (DoStatement off s t) = [s]"
| "child_statements (ForStatement off i t n s syms) = present i @ [s]"
| "child_statements (IfStatement off st t a b) = a # present b"
| "child_statements (SwitchStatement off st v cs syms) = concat (map case_statements cs)"
| "child_statements (VarDeclarationsStatement off ty vs) = vs"
| "child_statements (WhileStatement off t s) = [s]"
| "child_statements _ = []"

fun statement_expressions :: "statement \<Rightarrow> expression list" where
  "statement_expressions (DoStatement off s t) = [t]"
| "statement_expressions (ExpressionStatement e) = [e]"
| "statement_expressions (ForStatement off i t n s syms) = present t @ present n"
| "statement_expressions (IfStatement off st t a b) = [t]"
| "statement_expressions (ReturnStatement off e) = present e"
| "statement_expressions (SwitchStatement off st v cs syms) =
     v # concat (map (\<lambda>c. present (case_value c)) cs)"
| "statement_expressions (VarDeclaration var sizes v) = concat (map present sizes) @ present v"
| "statement_expressions (WhileStatement off t s) = [t]"
| "statement_expressions _ = []"

fun child_expressions :: "expression \<Rightarrow> expression list" where
  "child_expressions (BinaryExpression off l op r ty) = [l, r]"
| "child_expressions (Constructor off ty args) = args"
| "child_expressions (ExternalFunctionCall off ty f args) = args"
| "child_expressions (FieldAccess b i k) = [b]"
| "child_expressions (FunctionCall off ty f args) = args"
| "child_expressions (IndexExpression b i) = [b, i]"
| "child_expressions (PrefixExpression op e) = [e]"
| "child_expressions (PostfixExpression e op) = [e]"
| "child_expressions (Swizzle b cs) = [b]"
| "child_expressions (TernaryExpression off t a b) = [t, a, b]"
| "child_expressions _ = []"

lemma size_list_member: "x \<in> set xs \<Longrightarrow> f x < Suc (size_list f xs)"
  by (induction xs) auto

lemma in_set_present [simp]: "x \<in> set (present y) \<longleftrightarrow> y = Some x"
  by (cases y) auto

lemma size_last_member: "xs \<noteq> [] \<Longrightarrow> f (last xs) < Suc (size_list f xs)"
  by (simp add: size_list_member)

lemma child_statements_smaller: "c \<in> set (child_statements s) \<Longrightarrow> size c < size s"
proof (cases s)
  case (SwitchStatement off st v cs syms)
  assume "c \<in> set (child_statements s)"
  then obtain k where k: "k \<in> set cs" "c \<in> set (case_statements k)"
    using SwitchStatement by auto
  obtain o' v' ss where kk: "k = SwitchCase o' v' ss" by (cases k)
  have "size c < Suc (size_list size ss)" using k kk by (simp add: size_list_member)
  then have "size c < Suc (size k)" using kk by simp
  moreover have "size k < Suc (size_list size cs)" using k by (simp add: size_list_member)
  ultimately show ?thesis using SwitchStatement by simp
qed (auto simp: less_Suc_eq_le dest!: size_list_member[where f=size] split: option.splits)

lemma child_expressions_smaller: "c \<in> set (child_expressions e) \<Longrightarrow> size c < size e"
  by (cases e) (auto simp: less_Suc_eq_le dest!: size_list_member[where f=size])

section \<open>The returns analyzer\<close>

text \<open>
  Each counting visitor overrides \<^verbatim>\<open>visitStatement\<close> only, adds to its counter
  \<^verbatim>\<open>fNumReturns\<close> and returns what the inherited visit returns, which is \<open>false\<close>
  throughout, so that no visit is cut short. The embedding of a visitor is the amount its
  \<^verbatim>\<open>visitStatement\<close> adds to the counter, an \<^verbatim>\<open>int\<close> as in the source.
\<close>

function count_all_returns_stmt :: "statement \<Rightarrow> int" where
  "count_all_returns_stmt stmt =
     (case stmt of ReturnStatement off e \<Rightarrow> 1 | _ \<Rightarrow> 0)
     + sum_list (map count_all_returns_stmt (child_statements stmt))"
  by pat_completeness auto
termination
  by (relation "measure size") (auto simp: child_statements_smaller)

declare count_all_returns_stmt.simps [simp del]

definition count_all_returns :: "function_definition \<Rightarrow> int" where
  "count_all_returns funcDef = count_all_returns_stmt (fBody funcDef)"

function count_returns_at_end_stmt :: "statement \<Rightarrow> int" where
  "count_returns_at_end_stmt stmt =
     (case stmt of
        Block off blockStmts syms sc \<Rightarrow>
          (if length blockStmts > 0 then count_returns_at_end_stmt (last blockStmts) else 0)
      | SwitchStatement off st v cs syms \<Rightarrow> 0
      | WhileStatement off t s \<Rightarrow> 0
      | DoStatement off s t \<Rightarrow> 0
      | ForStatement off i t n s syms \<Rightarrow> 0
      | ReturnStatement off e \<Rightarrow>
          1 + sum_list (map count_returns_at_end_stmt (child_statements stmt))
      | _ \<Rightarrow> sum_list (map count_returns_at_end_stmt (child_statements stmt)))"
  by pat_completeness auto
termination
  by (relation "measure size")
     (auto simp: less_Suc_eq_le
           dest!: size_list_member[where f=size] size_last_member[where f=size])

declare count_returns_at_end_stmt.simps [simp del]

definition count_returns_at_end_of_control_flow :: "function_definition \<Rightarrow> int" where
  "count_returns_at_end_of_control_flow funcDef = count_returns_at_end_stmt (fBody funcDef)"

text \<open>
  The third visitor keeps the nesting depth \<^verbatim>\<open>fInsideBreakableConstruct\<close>, raised around
  the visit of a switch or loop; it is the first argument here.
\<close>

function count_returns_in_breakable_stmt :: "int \<Rightarrow> statement \<Rightarrow> int" where
  "count_returns_in_breakable_stmt fInsideBreakableConstruct stmt =
     (case stmt of
        SwitchStatement off st v cs syms \<Rightarrow>
          sum_list (map (count_returns_in_breakable_stmt (fInsideBreakableConstruct + 1))
                        (child_statements stmt))
      | WhileStatement off t s \<Rightarrow>
          sum_list (map (count_returns_in_breakable_stmt (fInsideBreakableConstruct + 1))
                        (child_statements stmt))
      | DoStatement off s t \<Rightarrow>
          sum_list (map (count_returns_in_breakable_stmt (fInsideBreakableConstruct + 1))
                        (child_statements stmt))
      | ForStatement off i t n s syms \<Rightarrow>
          sum_list (map (count_returns_in_breakable_stmt (fInsideBreakableConstruct + 1))
                        (child_statements stmt))
      | ReturnStatement off e \<Rightarrow>
          (if fInsideBreakableConstruct > 0 then 1 else 0)
          + sum_list (map (count_returns_in_breakable_stmt fInsideBreakableConstruct)
                          (child_statements stmt))
      | _ \<Rightarrow> sum_list (map (count_returns_in_breakable_stmt fInsideBreakableConstruct)
                         (child_statements stmt)))"
  by pat_completeness auto
termination
  by (relation "measure (\<lambda>(d, s). size s)")
     (auto simp del: child_statements.simps statement.size simp add: child_statements_smaller)

declare count_returns_in_breakable_stmt.simps [simp del]

definition count_returns_in_breakable_constructs :: "function_definition \<Rightarrow> int" where
  "count_returns_in_breakable_constructs funcDef =
     count_returns_in_breakable_stmt 0 (fBody funcDef)"

definition has_early_return :: "function_definition \<Rightarrow> bool" where
  "has_early_return funcDef =
     (let returnCount = count_all_returns funcDef in
      if returnCount = 0 then False
      else (let returnsAtEndOfControlFlow = count_returns_at_end_of_control_flow funcDef in
            returnCount > returnsAtEndOfControlFlow))"


section \<open>Recursion detection\<close>

text \<open>
  \<^verbatim>\<open>ContainsRecursiveCall\<close> overrides both visits: a function call whose callee matches
  the declaration, or an inline marker that does, ends the visit with \<open>true\<close>; every other node
  is handed to the generic visitor. \<^verbatim>\<open>FunctionDeclaration::matches\<close> is declared in a header
  that is not among the sources and is the parameter \<open>matches\<close>.
\<close>

function ContainsRecursiveCall_visitExpression ::
  "(function_declaration \<Rightarrow> function_declaration \<Rightarrow> bool) \<Rightarrow> declarations \<Rightarrow> function_ref
   \<Rightarrow> expression \<Rightarrow> bool" where
  "ContainsRecursiveCall_visitExpression matches decls fFuncDecl expr =
     (if (case expr of
            FunctionCall off ty fFunction args \<Rightarrow> matches (decls fFunction) (decls fFuncDecl)
          | _ \<Rightarrow> False)
      then True
      else list_ex (\<lambda>e. ContainsRecursiveCall_visitExpression matches decls fFuncDecl e)
             (child_expressions expr))"
  by pat_completeness auto
termination
  by (relation "measure (\<lambda>(m, d, f, e). size e)")
     (auto simp del: child_expressions.simps expression.size
           simp add: child_expressions_smaller)

declare ContainsRecursiveCall_visitExpression.simps [simp del]

function ContainsRecursiveCall_visitStatement ::
  "(function_declaration \<Rightarrow> function_declaration \<Rightarrow> bool) \<Rightarrow> declarations \<Rightarrow> function_ref
   \<Rightarrow> statement \<Rightarrow> bool" where
  "ContainsRecursiveCall_visitStatement matches decls fFuncDecl stmt =
     (if (case stmt of
            InlineMarker f \<Rightarrow> matches (decls f) (decls fFuncDecl)
          | _ \<Rightarrow> False)
      then True
      else list_ex (ContainsRecursiveCall_visitExpression matches decls fFuncDecl)
             (statement_expressions stmt)
           \<or> list_ex (\<lambda>s. ContainsRecursiveCall_visitStatement matches decls fFuncDecl s)
               (child_statements stmt))"
  by pat_completeness auto
termination
  by (relation "measure (\<lambda>(m, d, f, s). size s)")
     (auto simp del: child_statements.simps statement.size
           simp add: child_statements_smaller)

declare ContainsRecursiveCall_visitStatement.simps [simp del]

definition contains_recursive_call ::
  "(function_declaration \<Rightarrow> function_declaration \<Rightarrow> bool) \<Rightarrow> declarations \<Rightarrow> function_ref
   \<Rightarrow> bool" where
  "contains_recursive_call matches decls funcDecl =
     (case fDefinition (decls funcDecl) of
        Some definition \<Rightarrow>
          ContainsRecursiveCall_visitStatement matches decls funcDecl (fBody definition)
      | None \<Rightarrow> False)"

section \<open>Scope repair\<close>

fun is_Block :: "statement \<Rightarrow> bool" where
  "is_Block (Block off ss syms sc) = True"
| "is_Block _ = False"

fun is_control_statement :: "statement \<Rightarrow> bool" where
  "is_control_statement (IfStatement off st t a b) = True"
| "is_control_statement (ForStatement off i t n s syms) = True"
| "is_control_statement (DoStatement off s t) = True"
| "is_control_statement (WhileStatement off t s) = True"
| "is_control_statement _ = False"

text \<open>
  The loop of \<^verbatim>\<open>ensure_scoped_blocks\<close> walks from the inlined body down through blocks that
  are the only statement of their parent. \<open>scope_is_forced\<close> is that loop; it is \<open>True\<close> when the
  loop leaves through the assignment \<^verbatim>\<open>inlinedBody->fIsScope = true\<close> and \<open>False\<close> when it
  leaves through one of the two plain returns.
\<close>

function scope_is_forced :: "statement \<Rightarrow> bool" where
  "scope_is_forced nestedBlock =
     (case nestedBlock of
        Block off fStatements syms fIsScope \<Rightarrow>
          if fIsScope then False
          else if length fStatements \<noteq> 1 then True
          else if \<not> is_Block (fStatements ! 0) then False
          else scope_is_forced (fStatements ! 0)
      | _ \<Rightarrow> False)"
  by pat_completeness auto
termination
proof (relation "measure size")
  fix nestedBlock :: statement and off ss syms sc
  assume "nestedBlock = Block off ss syms sc" and "\<not> length ss \<noteq> 1"
  then obtain s where "ss = [s]" by (cases ss) auto
  then show "(ss ! 0, nestedBlock) \<in> measure size"
    using \<open>nestedBlock = Block off ss syms sc\<close> by simp
qed simp

declare scope_is_forced.simps [simp del]

definition ensure_scoped_blocks :: "statement \<Rightarrow> statement option \<Rightarrow> statement" where
  "ensure_scoped_blocks inlinedBody parentStmt =
     (if (case parentStmt of None \<Rightarrow> False | Some p \<Rightarrow> is_control_statement p) then
        (case inlinedBody of
           Block off fStatements syms fIsScope \<Rightarrow>
             if scope_is_forced inlinedBody then Block off fStatements syms True
             else inlinedBody
         | _ \<Rightarrow> inlinedBody)
      else inlinedBody)"

section \<open>The safety check\<close>

text \<open>
  \<^verbatim>\<open>Inliner::isSafeToInline\<close> reads the call only through its callee
  \<^verbatim>\<open>functionCall.fFunction\<close>, the argument \<open>fFunction\<close> here. \<^verbatim>\<open>Analysis::NodeCount\<close> is
  defined in a file that is not among the sources and is the parameter \<open>NodeCount\<close>. The two
  \<^verbatim>\<open>SkASSERT\<close>s of the function compare the two return criteria; lemma
  \<open>no_early_return_no_breakable_return\<close> below shows that they hold for every function.
\<close>

definition isSafeToInline ::
  "declarations \<Rightarrow> (function_definition \<Rightarrow> int) \<Rightarrow> settings \<Rightarrow> function_ref \<Rightarrow> int \<Rightarrow> bool" where
  "isSafeToInline decls NodeCount fSettings fFunction inlineThreshold =
     (case fDefinition (decls fFunction) of
        None \<Rightarrow> False
      | Some functionDef \<Rightarrow>
          if inlineThreshold < INT_MAX
             \<and> kInline_Flag \<notin> fFlags (fDeclModifiers (decls (fDeclaration functionDef)))
             \<and> NodeCount functionDef \<ge> inlineThreshold
          then False
          else if (case fCaps fSettings of None \<Rightarrow> True | Some c \<Rightarrow> \<not> canUseDoLoops c) then
            (let hasEarlyReturn = has_early_return functionDef in \<not> hasEarlyReturn)
          else
            (let hasReturnInBreakableConstruct =
                   (count_returns_in_breakable_constructs functionDef > 0)
             in \<not> hasReturnInBreakableConstruct))"

section \<open>Concrete programs\<close>

definition int_type :: sksl_type where
  "int_type = \<lparr>fTypeName = ''int'', typeKind = kOtherKind\<rparr>"

definition void_type :: sksl_type where
  "void_type = \<lparr>fTypeName = ''void'', typeKind = kOtherKind\<rparr>"

definition var_x :: variable where
  "var_x = \<lparr>fOffset = 0, fModifiers = \<lparr>fFlags = {}\<rparr>, fName = ''x'', fType = int_type,
            fStorage = kParameter_Storage\<rparr>"

definition ref_x :: expression where
  "ref_x = VariableReference 0 var_x kRead_RefKind"

text \<open>\<^verbatim>\<open>int f(int x) { if (x) return 0; return x; }\<close>\<close>

definition early_body :: statement where
  "early_body =
     Block 0 [IfStatement 0 False ref_x (ReturnStatement 0 (Some (IntLiteral 0 0))) None,
              ReturnStatement 0 (Some ref_x)] None True"

text \<open>\<^verbatim>\<open>int g(int x) { while (x) { return 0; } return x; }\<close>\<close>

definition loop_body :: statement where
  "loop_body =
     Block 0 [WhileStatement 0 ref_x (Block 0 [ReturnStatement 0 (Some (IntLiteral 0 0))] None True),
              ReturnStatement 0 (Some ref_x)] None True"

definition example_decls :: declarations where
  "example_decls f =
     \<lparr>fDeclName = (if f = 0 then ''f'' else if f = 2 then ''g'' else ''h''),
      fReturnType = int_type,
      fParameters = [var_x],
      fDeclModifiers = \<lparr>fFlags = {}\<rparr>,
      fDefinition = (if f = 0 then Some \<lparr>fDeclaration = 0, fBody = early_body\<rparr>
                     else if f = 2 then Some \<lparr>fDeclaration = 2, fBody = loop_body\<rparr>
                     else None),
      fCallCount = 1\<rparr>"

definition caps_without_do :: settings where
  "caps_without_do = \<lparr>fCaps = Some \<lparr>canUseDoLoops = False\<rparr>, fInlineThreshold = 50\<rparr>"

definition caps_with_do :: settings where
  "caps_with_do = \<lparr>fCaps = Some \<lparr>canUseDoLoops = True\<rparr>, fInlineThreshold = 50\<rparr>"

definition if_parent :: statement where
  "if_parent = IfStatement 0 False (BoolLiteral 0 True) (ExpressionStatement (BoolLiteral 0 False)) None"

section \<open>Symbol tables\<close>

text \<open>
  Modelled from the spec: the class \<^verbatim>\<open>SymbolTable\<close> (\<^verbatim>\<open>SkSLSymbolTable.h\<close> is not among
  the sources). The spec describes an ordered mapping from name to symbol with a parent pointer,
  which supports lookup, insertion and taking ownership of strings and of symbols. A lookup
  that finds nothing in a table goes on in its parent; ownership changes no lookup. The four
  arguments of \<open>SymbolTable\<close> are the parent, the symbols by name, the owned symbols and the
  owned strings.
\<close>

datatype symbol =
    SymVariable variable
  | SymType sksl_type
  | SymOther string

datatype symbol_table =
  SymbolTable "symbol_table option" "(string \<times> symbol) list" "symbol list" "string list"

fun lookup :: "symbol_table \<Rightarrow> string \<Rightarrow> symbol option" where
  "lookup (SymbolTable parent symbols ownedSymbols ownedStrings) name =
     (case map_of symbols name of
        Some s \<Rightarrow> Some s
      | None \<Rightarrow> (case parent of None \<Rightarrow> None | Some p \<Rightarrow> lookup p name))"

fun takeOwnershipOfString :: "symbol_table \<Rightarrow> string \<Rightarrow> symbol_table" where
  "takeOwnershipOfString (SymbolTable parent symbols ownedSymbols ownedStrings) n =
     SymbolTable parent symbols ownedSymbols (ownedStrings @ [n])"

fun takeOwnershipOfSymbol :: "symbol_table \<Rightarrow> symbol \<Rightarrow> symbol_table" where
  "takeOwnershipOfSymbol (SymbolTable parent symbols ownedSymbols ownedStrings) s =
     SymbolTable parent symbols (ownedSymbols @ [s]) ownedStrings"

fun add :: "symbol_table \<Rightarrow> string \<Rightarrow> symbol \<Rightarrow> symbol_table" where
  "add (SymbolTable parent symbols ownedSymbols ownedStrings) name s =
     SymbolTable parent (symbols @ [(name, s)]) (ownedSymbols @ [s]) ownedStrings"

section \<open>The naming service\<close>

text \<open>
  \<^verbatim>\<open>String::printf("_%d%s%s", fInlineVarCounter++, splitter, baseName.c_str())\<close>: the counter
  is printed in decimal. The counter is set to zero by \<^verbatim>\<open>reset\<close> and only ever incremented,
  so it is a natural number here.
\<close>

definition digit_char :: "nat \<Rightarrow> char" where
  "digit_char d = char_of (48 + d)"

fun decimal :: "nat \<Rightarrow> string" where
  "decimal n = (if n < 10 then [digit_char n] else decimal (n div 10) @ [digit_char (n mod 10)])"

declare decimal.simps [simp del]

definition startsWith :: "string \<Rightarrow> string \<Rightarrow> bool" where
  "startsWith s p = (take (length p) s = p)"

definition printf_inline_var :: "nat \<Rightarrow> string \<Rightarrow> string \<Rightarrow> string" where
  "printf_inline_var counter splitter baseName = ''_'' @ decimal counter @ splitter @ baseName"

lemma digit_char_inj: "a < 10 \<Longrightarrow> b < 10 \<Longrightarrow> digit_char a = digit_char b \<Longrightarrow> a = b"
proof -
  assume a: "a < 10" and b: "b < 10" and e: "digit_char a = digit_char b"
  have "of_char (digit_char a) = (of_char (digit_char b) :: nat)" using e by simp
  then show "a = b" using a b by (simp add: digit_char_def)
qed

lemma decimal_nonempty: "decimal n \<noteq> []"
  by (subst decimal.simps) simp

lemma decimal_inj: "decimal a = decimal b \<Longrightarrow> a = b"
proof (induction a arbitrary: b rule: decimal.induct)
  case (1 a)
  show ?case
  proof (cases "a < 10")
    case True
    then have da: "decimal a = [digit_char a]" by (subst decimal.simps) simp
    show ?thesis
    proof (cases "b < 10")
      case bt: True
      then have "decimal b = [digit_char b]" by (subst decimal.simps) simp
      then show ?thesis using da 1(2) True bt digit_char_inj by simp
    next
      case False
      then have "decimal b = decimal (b div 10) @ [digit_char (b mod 10)]"
        by (subst decimal.simps) simp
      then show ?thesis using da 1(2) decimal_nonempty[of "b div 10"] by simp
    qed
  next
    case False
    then have da: "decimal a = decimal (a div 10) @ [digit_char (a mod 10)]"
      by (subst decimal.simps) simp
    show ?thesis
    proof (cases "b < 10")
      case True
      then have "decimal b = [digit_char b]" by (subst decimal.simps) simp
      then show ?thesis using da 1(2) decimal_nonempty[of "a div 10"] by simp
    next
      case bf: False
      then have db: "decimal b = decimal (b div 10) @ [digit_char (b mod 10)]"
        by (subst decimal.simps) simp
      have e: "decimal (a div 10) = decimal (b div 10)" "digit_char (a mod 10) = digit_char (b mod 10)"
        using da db 1(2) by simp_all
      have "a div 10 = b div 10" using 1(1)[OF False e(1)] .
      moreover have "a mod 10 = b mod 10" using e(2) by (intro digit_char_inj) simp_all
      ultimately show ?thesis by (metis div_mult_mod_eq)
    qed
  qed
qed

lemma printf_inline_var_inj:
  "printf_inline_var a s b = printf_inline_var a' s b \<Longrightarrow> a = a'"
  by (simp add: printf_inline_var_def decimal_inj)

lemma finite_lookup: "finite {n. lookup st n \<noteq> None}"
proof (induction st)
  case (SymbolTable parent symbols ownedSymbols ownedStrings)
  have own: "finite (dom (map_of symbols))" by (rule finite_dom_map_of)
  show ?case
  proof (cases parent)
    case None
    have "{n. lookup (SymbolTable parent symbols ownedSymbols ownedStrings) n \<noteq> None}
          \<subseteq> dom (map_of symbols)"
      using None by (auto split: option.splits)
    then show ?thesis using own finite_subset by blast
  next
    case (Some p)
    have "finite {n. lookup p n \<noteq> None}" using SymbolTable Some by simp
    moreover have "{n. lookup (SymbolTable parent symbols ownedSymbols ownedStrings) n \<noteq> None}
          \<subseteq> dom (map_of symbols) \<union> {n. lookup p n \<noteq> None}"
      using Some by (auto split: option.splits)
    ultimately show ?thesis using own by (meson finite_UnI finite_subset)
  qed
qed

lemma finite_taken_counters:
  "finite {k. lookup st (printf_inline_var k s b) \<noteq> None}"
proof -
  have "{k. lookup st (printf_inline_var k s b) \<noteq> None}
        = (\<lambda>k. printf_inline_var k s b) -` {n. lookup st n \<noteq> None}" by auto
  moreover have "inj (\<lambda>k. printf_inline_var k s b)"
    by (rule injI) (rule printf_inline_var_inj)
  ultimately show ?thesis using finite_lookup finite_vimageI by metis
qed

function uniqueNameForInlineVar :: "string \<Rightarrow> symbol_table \<Rightarrow> nat \<Rightarrow> string \<times> nat" where
  "uniqueNameForInlineVar baseName symbolTable fInlineVarCounter =
     (let splitter = (if startsWith baseName ''_'' then [] else ''_'');
          uniqueName = printf_inline_var fInlineVarCounter splitter baseName
      in if lookup symbolTable uniqueName = None then (uniqueName, fInlineVarCounter + 1)
         else uniqueNameForInlineVar baseName symbolTable (fInlineVarCounter + 1))"
  by pat_completeness auto
termination
proof (relation "measure (\<lambda>(b, st, c).
          card {k. c \<le> k \<and> lookup st (printf_inline_var k
                                        (if startsWith b ''_'' then [] else ''_'') b) \<noteq> None})")
  fix baseName symbolTable fInlineVarCounter and splitter uniqueName :: string
  let ?taken = "\<lambda>k. lookup symbolTable (printf_inline_var k splitter baseName) \<noteq> None"
  assume sp: "splitter = (if startsWith baseName ''_'' then [] else ''_'')"
    and "uniqueName = printf_inline_var fInlineVarCounter splitter baseName"
    and "lookup symbolTable uniqueName \<noteq> None"
  then have "fInlineVarCounter \<in> {k. fInlineVarCounter \<le> k \<and> ?taken k}"
    and "fInlineVarCounter \<notin> {k. fInlineVarCounter + 1 \<le> k \<and> ?taken k}"
    by simp_all
  moreover have "{k. fInlineVarCounter + 1 \<le> k \<and> ?taken k}
                 \<subseteq> {k. fInlineVarCounter \<le> k \<and> ?taken k}"
    by auto
  ultimately have "{k. fInlineVarCounter + 1 \<le> k \<and> ?taken k}
                   \<subset> {k. fInlineVarCounter \<le> k \<and> ?taken k}"
    by blast
  moreover have "finite {k. fInlineVarCounter \<le> k \<and> ?taken k}"
    using finite_taken_counters[of symbolTable splitter baseName] by simp
  ultimately have "card {k. fInlineVarCounter + 1 \<le> k \<and> ?taken k}
                   < card {k. fInlineVarCounter \<le> k \<and> ?taken k}"
    by (rule psubset_card_mono[rotated])
  then show "((baseName, symbolTable, fInlineVarCounter + 1),
              (baseName, symbolTable, fInlineVarCounter))
        \<in> measure (\<lambda>(b, st, c).
          card {k. c \<le> k \<and> lookup st (printf_inline_var k
                                        (if startsWith b ''_'' then [] else ''_'') b) \<noteq> None})"
    unfolding sp by simp
qed simp

declare uniqueNameForInlineVar.simps [simp del]

text \<open>The digraph that the shading language forbids: two consecutive underscores.\<close>

fun has_double_underscore :: "string \<Rightarrow> bool" where
  "has_double_underscore (a # b # cs) =
     (a = CHR ''_'' \<and> b = CHR ''_'' \<or> has_double_underscore (b # cs))"
| "has_double_underscore _ = False"

definition empty_table :: symbol_table where
  "empty_table = SymbolTable None [] [] []"

definition table_with_0_x :: symbol_table where
  "table_with_0_x = SymbolTable (Some (SymbolTable None [(''_0_x'', SymOther ''x'')] [] [])) [] [] []"

section \<open>The cloner\<close>

text \<open>
  \<^verbatim>\<open>Inliner::inlineExpression\<close> copies an expression, tags the new nodes with the offset of
  the call and rewrites variable references through \<open>varMap\<close>. The default branch of its switch
  (\<^verbatim>\<open>SkASSERT(false); return nullptr\<close>) is reached for the kind \<^verbatim>\<open>kDefined\<close> only; it
  is the result \<open>None\<close>.
\<close>

fun inlineExpression ::
  "int \<Rightarrow> (variable \<rightharpoonup> variable) \<Rightarrow> expression \<Rightarrow> expression option" where
  "inlineExpression offset varMap (BinaryExpression off l op r ty) =
     do { l' \<leftarrow> inlineExpression offset varMap l;
          r' \<leftarrow> inlineExpression offset varMap r;
          Some (BinaryExpression offset l' op r' ty) }"
| "inlineExpression offset varMap (BoolLiteral off v) = Some (BoolLiteral off v)"
| "inlineExpression offset varMap (IntLiteral off v) = Some (IntLiteral off v)"
| "inlineExpression offset varMap (FloatLiteral off v) = Some (FloatLiteral off v)"
| "inlineExpression offset varMap (NullLiteral off) = Some (NullLiteral off)"
| "inlineExpression offset varMap (Constructor off ty args) =
     do { args' \<leftarrow> those (map (\<lambda>a. inlineExpression offset varMap a) args);
          Some (Constructor offset ty args') }"
| "inlineExpression offset varMap (ExternalFunctionCall off ty f args) =
     do { args' \<leftarrow> those (map (\<lambda>a. inlineExpression offset varMap a) args);
          Some (ExternalFunctionCall offset ty f args') }"
| "inlineExpression offset varMap (ExternalValue off v) = Some (ExternalValue off v)"
| "inlineExpression offset varMap (FieldAccess b i k) =
     do { b' \<leftarrow> inlineExpression offset varMap b; Some (FieldAccess b' i k) }"
| "inlineExpression offset varMap (FunctionCall off ty f args) =
     do { args' \<leftarrow> those (map (\<lambda>a. inlineExpression offset varMap a) args);
          Some (FunctionCall offset ty f args') }"
| "inlineExpression offset varMap (FunctionReference off fs) = Some (FunctionReference off fs)"
| "inlineExpression offset varMap (IndexExpression b i) =
     do { b' \<leftarrow> inlineExpression offset varMap b;
          i' \<leftarrow> inlineExpression offset varMap i;
          Some (IndexExpression b' i') }"
| "inlineExpression offset varMap (PrefixExpression op e) =
     do { e' \<leftarrow> inlineExpression offset varMap e; Some (PrefixExpression op e') }"
| "inlineExpression offset varMap (PostfixExpression e op) =
     do { e' \<leftarrow> inlineExpression offset varMap e; Some (PostfixExpression e' op) }"
| "inlineExpression offset varMap (Setting off n) = Some (Setting off n)"
| "inlineExpression offset varMap (Swizzle b cs) =
     do { b' \<leftarrow> inlineExpression offset varMap b; Some (Swizzle b' cs) }"
| "inlineExpression offset varMap (TernaryExpression off t a b) =
     do { t' \<leftarrow> inlineExpression offset varMap t;
          a' \<leftarrow> inlineExpression offset varMap a;
          b' \<leftarrow> inlineExpression offset varMap b;
          Some (TernaryExpression offset t' a' b') }"
| "inlineExpression offset varMap (TypeReference off ty) = Some (TypeReference off ty)"
| "inlineExpression offset varMap (VariableReference off v refKind) =
     (case varMap v of
        Some found \<Rightarrow> Some (VariableReference offset found refKind)
      | None \<Rightarrow> Some (VariableReference off v refKind))"
| "inlineExpression offset varMap (Defined off) = None"


text \<open>
  \<^verbatim>\<open>Inliner::inlineStatement\<close> changes three things as it goes: the counter
  \<^verbatim>\<open>fInlineVarCounter\<close> of the inliner, the receiving symbol table
  \<^verbatim>\<open>symbolTableForStatement\<close> and the rewrite map \<^verbatim>\<open>varMap\<close>. They are the state that
  each clone takes and returns, with the fields \<open>fSymbolTable\<close> and \<open>fVarMap\<close> for the latter
  two. A result \<open>None\<close> stands for the two
  ways the C++ leaves defined behaviour: the null \<^verbatim>\<open>returnVar\<close> read by a return with
  an expression, and a declaration group whose member is not a \<^verbatim>\<open>VarDeclaration\<close>.
  Where a C++ constructor call clones several children in its argument list, the order of the
  clones is not fixed by the language; the model takes them from left to right.
\<close>

record inliner_state =
  fInlineVarCounter :: nat
  fSymbolTable :: symbol_table
  fVarMap :: "variable \<rightharpoonup> variable"

fun copy_if_needed :: "sksl_type \<Rightarrow> symbol_table \<Rightarrow> sksl_type \<times> symbol_table" where
  "copy_if_needed src symbolTable =
     (if typeKind src = kArray then (src, takeOwnershipOfSymbol symbolTable (SymType src))
      else (src, symbolTable))"

text \<open>The lambdas \<^verbatim>\<open>expr\<close>, \<^verbatim>\<open>stmt\<close> and \<^verbatim>\<open>stmts\<close> for a child that may be null or is a list.\<close>

fun clone_expr :: "int \<Rightarrow> (variable \<rightharpoonup> variable) \<Rightarrow> expression option
    \<Rightarrow> expression option option" where
  "clone_expr offset vm None = Some None"
| "clone_expr offset vm (Some e) = map_option Some (inlineExpression offset vm e)"

fun clone_stmt :: "(statement \<Rightarrow> 's \<Rightarrow> (statement \<times> 's) option) \<Rightarrow> statement option \<Rightarrow> 's
    \<Rightarrow> (statement option \<times> 's) option" where
  "clone_stmt f None st = Some (None, st)"
| "clone_stmt f (Some s) st = map_option (\<lambda>(s', st'). (Some s', st')) (f s st)"

fun clone_all :: "('a \<Rightarrow> 's \<Rightarrow> ('b \<times> 's) option) \<Rightarrow> 'a list \<Rightarrow> 's \<Rightarrow> ('b list \<times> 's) option" where
  "clone_all f [] st = Some ([], st)"
| "clone_all f (x # xs) st =
     do { (y, st1) \<leftarrow> f x st;
          (ys, st2) \<leftarrow> clone_all f xs st1;
          Some (y # ys, st2) }"

lemma clone_all_cong [fundef_cong]:
  "xs = ys \<Longrightarrow> st = st' \<Longrightarrow> (\<And>x s. x \<in> set ys \<Longrightarrow> f x s = g x s)
   \<Longrightarrow> clone_all f xs st = clone_all g ys st'"
proof (induction ys arbitrary: xs st st')
  case Nil
  then show ?case by simp
next
  case (Cons y ys)
  have "clone_all f ys s = clone_all g ys s" for s
    using Cons.IH[OF refl refl] Cons.prems(3) by simp
  then show ?case using Cons.prems by (simp cong: Option.bind_cong)
qed

lemma clone_stmt_cong [fundef_cong]:
  "so = so' \<Longrightarrow> st = st' \<Longrightarrow> (\<And>x s. so' = Some x \<Longrightarrow> f x s = g x s)
   \<Longrightarrow> clone_stmt f so st = clone_stmt g so' st'"
  by (cases so') auto

fun is_VarDeclaration :: "statement \<Rightarrow> bool" where
  "is_VarDeclaration (VarDeclaration var sizes v) = True"
| "is_VarDeclaration _ = False"

fun inlineStatement ::
  "int \<Rightarrow> variable option \<Rightarrow> bool \<Rightarrow> statement \<Rightarrow> inliner_state
   \<Rightarrow> (statement \<times> inliner_state) option" where
  "inlineStatement offset returnVar haveEarlyReturns (Block off ss syms isScope) st =
     do { (ss', st1) \<leftarrow> clone_all (\<lambda>s t. inlineStatement offset returnVar haveEarlyReturns s t) ss st;
          Some (Block offset ss' syms isScope, st1) }"
| "inlineStatement offset returnVar haveEarlyReturns (BreakStatement off) st =
     Some (BreakStatement off, st)"
| "inlineStatement offset returnVar haveEarlyReturns (ContinueStatement off) st =
     Some (ContinueStatement off, st)"
| "inlineStatement offset returnVar haveEarlyReturns (DiscardStatement off) st =
     Some (DiscardStatement off, st)"
| "inlineStatement offset returnVar haveEarlyReturns (DoStatement off s t) st =
     do { (s', st1) \<leftarrow> inlineStatement offset returnVar haveEarlyReturns s st;
          t' \<leftarrow> inlineExpression offset (fVarMap st1) t;
          Some (DoStatement offset s' t', st1) }"
| "inlineStatement offset returnVar haveEarlyReturns (ExpressionStatement e) st =
     do { e' \<leftarrow> inlineExpression offset (fVarMap st) e;
          Some (ExpressionStatement e', st) }"
| "inlineStatement offset returnVar haveEarlyReturns (ForStatement off i t n s syms) st =
     do { (initializer, st1) \<leftarrow>
            clone_stmt (\<lambda>s t. inlineStatement offset returnVar haveEarlyReturns s t) i st;
          t' \<leftarrow> clone_expr offset (fVarMap st1) t;
          n' \<leftarrow> clone_expr offset (fVarMap st1) n;
          (s', st2) \<leftarrow> inlineStatement offset returnVar haveEarlyReturns s st1;
          Some (ForStatement offset initializer t' n' s' syms, st2) }"
| "inlineStatement offset returnVar haveEarlyReturns (IfStatement off isStatic t a b) st =
     do { t' \<leftarrow> inlineExpression offset (fVarMap st) t;
          (a', st1) \<leftarrow> inlineStatement offset returnVar haveEarlyReturns a st;
          (b', st2) \<leftarrow>
            clone_stmt (\<lambda>s t. inlineStatement offset returnVar haveEarlyReturns s t) b st1;
          Some (IfStatement offset isStatic t' a' b', st2) }"
| "inlineStatement offset returnVar haveEarlyReturns (InlineMarker f) st =
     Some (InlineMarker f, st)"
| "inlineStatement offset returnVar haveEarlyReturns Nop st = Some (Nop, st)"
| "inlineStatement offset returnVar haveEarlyReturns (ReturnStatement off fExpression) st =
     (case fExpression of
        Some e \<Rightarrow>
          (case returnVar of
             None \<Rightarrow> None
           | Some rv \<Rightarrow>
               do { e' \<leftarrow> inlineExpression offset (fVarMap st) e;
                    let assignment = ExpressionStatement
                          (BinaryExpression offset (VariableReference offset rv kWrite_RefKind)
                             TK_EQ e' (fType rv));
                    if haveEarlyReturns
                    then Some (Block offset [assignment, BreakStatement offset] None True, st)
                    else Some (assignment, st) })
      | None \<Rightarrow>
          if haveEarlyReturns then Some (BreakStatement offset, st) else Some (Nop, st))"
| "inlineStatement offset returnVar haveEarlyReturns (SwitchStatement off isStatic v cs syms) st =
     do { (cases, st1) \<leftarrow>
            clone_all (\<lambda>sc t. case sc of SwitchCase coff cv css \<Rightarrow>
                         do { cv' \<leftarrow> clone_expr offset (fVarMap t) cv;
                              (css', t1) \<leftarrow>
                                clone_all (\<lambda>s u. inlineStatement offset returnVar haveEarlyReturns s u)
                                  css t;
                              Some (SwitchCase offset cv' css', t1) })
              cs st;
          v' \<leftarrow> inlineExpression offset (fVarMap st1) v;
          Some (SwitchStatement offset isStatic v' cases syms, st1) }"
| "inlineStatement offset returnVar haveEarlyReturns (VarDeclaration old fSizes fValue) st =
     do { sizes \<leftarrow> those (map (clone_expr offset (fVarMap st)) fSizes);
          initialValue \<leftarrow> clone_expr offset (fVarMap st) fValue;
          let (name, counter) =
                uniqueNameForInlineVar (fName old) (fSymbolTable st) (fInlineVarCounter st);
              symbols1 = takeOwnershipOfString (fSymbolTable st) name;
              (typePtr, symbols2) = copy_if_needed (fType old) symbols1;
              clone = \<lparr>fOffset = offset, fModifiers = fModifiers old, fName = name,
                       fType = typePtr, fStorage = fStorage old\<rparr>;
              symbols3 = takeOwnershipOfSymbol symbols2 (SymVariable clone)
          in Some (VarDeclaration clone sizes initialValue,
                   \<lparr>fInlineVarCounter = counter, fSymbolTable = symbols3,
                    fVarMap = (fVarMap st)(old \<mapsto> clone)\<rparr>) }"
| "inlineStatement offset returnVar haveEarlyReturns (VarDeclarationsStatement off ty fVars) st =
     do { (vars, st1) \<leftarrow>
            clone_all (\<lambda>s t. inlineStatement offset returnVar haveEarlyReturns s t) fVars st;
          if list_all is_VarDeclaration vars
          then (let (typePtr, symbols1) = copy_if_needed ty (fSymbolTable st1)
                in Some (VarDeclarationsStatement offset typePtr vars,
                         st1\<lparr>fSymbolTable := symbols1\<rparr>))
          else None }"
| "inlineStatement offset returnVar haveEarlyReturns (WhileStatement off t s) st =
     do { t' \<leftarrow> inlineExpression offset (fVarMap st) t;
          (s', st1) \<leftarrow> inlineStatement offset returnVar haveEarlyReturns s st;
          Some (WhileStatement offset t' s', st1) }"


section \<open>The call rewriter\<close>

text \<open>
  \<^verbatim>\<open>Inliner::inlineCall\<close> reads two functions that are defined in files that are not among
  the sources: \<^verbatim>\<open>Expression::type()\<close>, the parameter \<open>typeOf\<close>, and
  \<^verbatim>\<open>Analysis::StatementWritesToVariable\<close>, the parameter \<open>StatementWritesToVariable\<close>.

  The lambda \<^verbatim>\<open>makeInlineVar\<close> appends a declaration to \<^verbatim>\<open>inlinedBody\<close> and adds the new
  variable to the symbol table of the call. Its last argument is a pointer to the
  \<^verbatim>\<open>unique_ptr\<close> that holds the initial value: the declaration gets a clone of it for an
  \<^verbatim>\<open>out\<close> parameter and the expression itself otherwise, which leaves the caller's pointer
  null. The second component of the result is what the caller's pointer holds afterwards.
  \<^verbatim>\<open>SkDEBUGFAIL\<close> does nothing in a release build; the literal types are replaced.
\<close>

definition makeInlineVar ::
  "sksl_context \<Rightarrow> int \<Rightarrow> string \<Rightarrow> sksl_type \<Rightarrow> modifiers \<Rightarrow> expression option
   \<Rightarrow> statement list \<Rightarrow> inliner_state
   \<Rightarrow> (variable \<times> expression option \<times> statement list \<times> inliner_state) option" where
  "makeInlineVar fContext offset baseName type0 mods initialValue inlinedBody st =
     (let ty = (if type0 = fFloatLiteral_Type fContext then fFloat_Type fContext
                else if type0 = fIntLiteral_Type fContext then fInt_Type fContext
                else type0);
          (uniqueName, counter) =
             uniqueNameForInlineVar baseName (fSymbolTable st) (fInlineVarCounter st);
          symbols1 = takeOwnershipOfString (fSymbolTable st) uniqueName;
          newVar = \<lparr>fOffset = - 1, fModifiers = \<lparr>fFlags = {}\<rparr>, fName = uniqueName,
                    fType = ty, fStorage = kLocal_Storage\<rparr>;
          symbols2 = add symbols1 uniqueName (SymVariable newVar);
          st' = st\<lparr>fInlineVarCounter := counter, fSymbolTable := symbols2\<rparr>
      in if kOut_Flag \<in> fFlags mods then
           (case initialValue of
              None \<Rightarrow> None
            | Some e \<Rightarrow>
                Some (newVar, Some e,
                      inlinedBody @ [VarDeclarationsStatement offset ty
                                       [VarDeclaration newVar [] (Some e)]], st'))
         else
           Some (newVar, None,
                 inlinedBody @ [VarDeclarationsStatement offset ty
                                  [VarDeclaration newVar [] initialValue]], st'))"

text \<open>
  The state of one activation of \<^verbatim>\<open>inlineCall\<close>: the argument vector of the call (an
  argument moved into a declaration leaves a null pointer behind), the statements of the inlined
  body so far, and the state of the cloner.
\<close>

record call_state =
  fArguments :: "expression option list"
  fStatements :: "statement list"
  fInliner :: inliner_state

fun for_each :: "(nat \<Rightarrow> 's \<Rightarrow> 's option) \<Rightarrow> nat list \<Rightarrow> 's \<Rightarrow> 's option" where
  "for_each f [] s = Some s"
| "for_each f (i # is) s = (case f i s of None \<Rightarrow> None | Some s' \<Rightarrow> for_each f is s')"

text \<open>The body of the first loop over the arguments, for position \<open>i\<close>.\<close>

definition inlineCall_argument ::
  "sksl_context \<Rightarrow> (expression \<Rightarrow> sksl_type) \<Rightarrow> (statement \<Rightarrow> variable \<Rightarrow> bool)
   \<Rightarrow> function_definition \<Rightarrow> variable list \<Rightarrow> int \<Rightarrow> nat \<Rightarrow> call_state \<Rightarrow> call_state option" where
  "inlineCall_argument fContext typeOf StatementWritesToVariable function fParams offset i cs =
     (if i < length fParams \<and> i < length (fArguments cs) then
        (case fArguments cs ! i of
           None \<Rightarrow> None
         | Some argument \<Rightarrow>
             (let param = fParams ! i;
                  st = fInliner cs;
                  direct = (case argument of
                              VariableReference voff v refKind \<Rightarrow>
                                if kOut_Flag \<in> fFlags (fModifiers param)
                                   \<or> \<not> StatementWritesToVariable (fBody function) param
                                then Some v else None
                            | _ \<Rightarrow> None)
              in case direct of
                   Some v \<Rightarrow> Some (cs\<lparr>fInliner := st\<lparr>fVarMap := (fVarMap st)(param \<mapsto> v)\<rparr>\<rparr>)
                 | None \<Rightarrow>
                     do { (var, remaining, body, st') \<leftarrow>
                            makeInlineVar fContext offset (fName param) (typeOf argument)
                              (fModifiers param) (Some argument) (fStatements cs) st;
                          Some \<lparr>fArguments = (fArguments cs)[i := remaining],
                                fStatements = body,
                                fInliner = st'\<lparr>fVarMap := (fVarMap st')(param \<mapsto> var)\<rparr>\<rparr> }))
      else None)"

text \<open>The body of the second loop, which copies \<^verbatim>\<open>out\<close> parameters back.\<close>

definition inlineCall_copy_back ::
  "(expression \<Rightarrow> sksl_type) \<Rightarrow> variable list \<Rightarrow> int \<Rightarrow> nat \<Rightarrow> call_state \<Rightarrow> call_state option" where
  "inlineCall_copy_back typeOf fParams offset i cs =
     (if i < length fParams \<and> i < length (fArguments cs) then
        (let p = fParams ! i in
         if kOut_Flag \<in> fFlags (fModifiers p) then
           (case fArguments cs ! i of
              None \<Rightarrow> None
            | Some argument \<Rightarrow>
                (case fVarMap (fInliner cs) p of
                   None \<Rightarrow> None
                 | Some mapped \<Rightarrow>
                     if (case argument of
                           VariableReference voff v refKind \<Rightarrow> v = mapped
                         | _ \<Rightarrow> False)
                     then Some cs
                     else Some (cs\<lparr>fStatements := fStatements cs @
                            [ExpressionStatement
                               (BinaryExpression offset argument TK_EQ
                                  (VariableReference offset mapped kRead_RefKind)
                                  (typeOf argument))]\<rparr>)))
         else Some cs)
      else None)"

record inlined_call =
  fInlinedBody :: statement
  fReplacementExpr :: expression

text \<open>
  \<open>inlineCall\<close> takes the three fields of the call (\<^verbatim>\<open>fOffset\<close>, \<^verbatim>\<open>fFunction\<close>,
  \<^verbatim>\<open>fArguments\<close>), the symbol table of the call and the counter of the inliner, and returns
  the inlined call with the cloner state it ends in. The block built with the two-argument
  constructor \<^verbatim>\<open>Block(offset, statements)\<close> has no symbol table and is a scope, and a
  \<^verbatim>\<open>VariableReference(offset, variable)\<close> is a read, the defaults of these constructors.
\<close>

definition inlineCall ::
  "sksl_context \<Rightarrow> (expression \<Rightarrow> sksl_type) \<Rightarrow> (statement \<Rightarrow> variable \<Rightarrow> bool) \<Rightarrow> declarations
   \<Rightarrow> int \<Rightarrow> function_ref \<Rightarrow> expression list \<Rightarrow> symbol_table \<Rightarrow> nat
   \<Rightarrow> (inlined_call \<times> inliner_state) option" where
  "inlineCall fContext typeOf StatementWritesToVariable decls offset fFunction arguments
     symbolTableForCall counter =
     (case fDefinition (decls fFunction) of
        None \<Rightarrow> None
      | Some function \<Rightarrow>
          (let hasEarlyReturn = has_early_return function;
               declaration = decls (fDeclaration function);
               st0 = \<lparr>fInlineVarCounter = counter, fSymbolTable = symbolTableForCall,
                      fVarMap = Map.empty\<rparr>;
               marker = [InlineMarker fFunction]
           in do {
             (resultVar, body1, st1) \<leftarrow>
               (if fReturnType declaration \<noteq> fVoid_Type fContext then
                  do { (v, r, b, s) \<leftarrow>
                         makeInlineVar fContext offset (fDeclName declaration)
                           (fReturnType declaration) \<lparr>fFlags = {}\<rparr> None marker st0;
                       Some (Some v, b, s) }
                else Some (None, marker, st0));
             cs \<leftarrow> for_each
                     (inlineCall_argument fContext typeOf StatementWritesToVariable function
                        (fParameters declaration) offset)
                     [0..<length arguments]
                     \<lparr>fArguments = map Some arguments, fStatements = body1, fInliner = st1\<rparr>;
             (case fBody function of
                Block boff bodyStatements bsyms bscope \<Rightarrow>
                  do { (stmts, st2) \<leftarrow>
                         clone_all (\<lambda>s t. inlineStatement offset resultVar hasEarlyReturn s t)
                           bodyStatements (fInliner cs);
                       let inlineBlock = Block offset stmts None True;
                       let body2 = fStatements cs @
                             [if hasEarlyReturn
                              then DoStatement (- 1) inlineBlock (BoolLiteral offset False)
                              else inlineBlock];
                       cs' \<leftarrow> for_each
                                (inlineCall_copy_back typeOf (fParameters declaration) offset)
                                [0..<length arguments]
                                (cs\<lparr>fStatements := body2, fInliner := st2\<rparr>);
                       replacement \<leftarrow>
                         (if fReturnType declaration \<noteq> fVoid_Type fContext then
                            map_option (\<lambda>rv. VariableReference offset rv kRead_RefKind) resultVar
                          else Some (BoolLiteral offset False));
                       Some (\<lparr>fInlinedBody = Block offset (fStatements cs') None False,
                              fReplacementExpr = replacement\<rparr>, fInliner cs') }
              | _ \<Rightarrow> None) }))"

definition bool_type :: sksl_type where
  "bool_type = \<lparr>fTypeName = ''bool'', typeKind = kOtherKind\<rparr>"

definition float_type :: sksl_type where
  "float_type = \<lparr>fTypeName = ''float'', typeKind = kOtherKind\<rparr>"

definition example_context :: sksl_context where
  "example_context =
     \<lparr>fVoid_Type = void_type, fBool_Type = bool_type, fInt_Type = int_type,
      fFloat_Type = float_type,
      fIntLiteral_Type = \<lparr>fTypeName = ''$intLiteral'', typeKind = kOtherKind\<rparr>,
      fFloatLiteral_Type = \<lparr>fTypeName = ''$floatLiteral'', typeKind = kOtherKind\<rparr>\<rparr>"

text \<open>
  \<^verbatim>\<open>void add(out int r, int a, int b) { r = a + b; }\<close>, called as \<^verbatim>\<open>add(t, u, v)\<close> and as
  \<^verbatim>\<open>add(w.x, u, v)\<close> at offset 5.
\<close>

definition param_r :: variable where
  "param_r = \<lparr>fOffset = 0, fModifiers = \<lparr>fFlags = {kOut_Flag}\<rparr>, fName = ''r'',
              fType = int_type, fStorage = kParameter_Storage\<rparr>"

definition param_a :: variable where
  "param_a = \<lparr>fOffset = 0, fModifiers = \<lparr>fFlags = {}\<rparr>, fName = ''a'',
              fType = int_type, fStorage = kParameter_Storage\<rparr>"

definition param_b :: variable where
  "param_b = \<lparr>fOffset = 0, fModifiers = \<lparr>fFlags = {}\<rparr>, fName = ''b'',
              fType = int_type, fStorage = kParameter_Storage\<rparr>"

definition local_var :: "string \<Rightarrow> variable" where
  "local_var n = \<lparr>fOffset = 0, fModifiers = \<lparr>fFlags = {}\<rparr>, fName = n,
                  fType = int_type, fStorage = kLocal_Storage\<rparr>"

definition add_body :: statement where
  "add_body =
     Block 0 [ExpressionStatement
                (BinaryExpression 0 (VariableReference 0 param_r kWrite_RefKind) TK_EQ
                   (BinaryExpression 0 (VariableReference 0 param_a kRead_RefKind) (TK_OTHER 0)
                      (VariableReference 0 param_b kRead_RefKind) int_type)
                   int_type)] None True"

definition add_decls :: declarations where
  "add_decls f =
     \<lparr>fDeclName = ''add'', fReturnType = void_type,
      fParameters = [param_r, param_a, param_b],
      fDeclModifiers = \<lparr>fFlags = {}\<rparr>,
      fDefinition = Some \<lparr>fDeclaration = 0, fBody = add_body\<rparr>,
      fCallCount = 1\<rparr>"

definition writes_r :: "statement \<Rightarrow> variable \<Rightarrow> bool" where
  "writes_r body v = (v = param_r)"

definition temp_0_r :: variable where
  "temp_0_r = \<lparr>fOffset = - 1, fModifiers = \<lparr>fFlags = {}\<rparr>, fName = ''_0_r'',
               fType = int_type, fStorage = kLocal_Storage\<rparr>"

definition w_x :: expression where
  "w_x = Swizzle (VariableReference 0 (local_var ''w'') kRead_RefKind) [0]"

definition example_state :: inliner_state where
  "example_state = \<lparr>fInlineVarCounter = 0, fSymbolTable = empty_table,
                    fVarMap = [var_x \<mapsto> local_var ''_0_x'']\<rparr>"

definition add_definition :: function_definition where
  "add_definition = \<lparr>fDeclaration = 0, fBody = add_body\<rparr>"

definition call_add_t_u_v :: call_state where
  "call_add_t_u_v =
     \<lparr>fArguments = [Some (VariableReference 0 (local_var ''t'') kRead_RefKind),
                    Some (VariableReference 0 (local_var ''u'') kRead_RefKind),
                    Some (VariableReference 0 (local_var ''v'') kRead_RefKind)],
      fStatements = [InlineMarker 0],
      fInliner = \<lparr>fInlineVarCounter = 0, fSymbolTable = empty_table, fVarMap = Map.empty\<rparr>\<rparr>"

definition call_add_wx_u_v :: call_state where
  "call_add_wx_u_v =
     \<lparr>fArguments = [Some w_x,
                    Some (VariableReference 0 (local_var ''u'') kRead_RefKind),
                    Some (VariableReference 0 (local_var ''v'') kRead_RefKind)],
      fStatements = [InlineMarker 0],
      fInliner = \<lparr>fInlineVarCounter = 0, fSymbolTable = empty_table, fVarMap = Map.empty\<rparr>\<rparr>"

definition table_with_temp_0_r :: symbol_table where
  "table_with_temp_0_r =
     SymbolTable None [(''_0_r'', SymVariable temp_0_r)] [SymVariable temp_0_r] [''_0_r'']"

section \<open>The candidate analyzer\<close>











definition indexed :: "'a list \<Rightarrow> (nat \<times> 'a) list" where
  "indexed xs = zip [0..<length xs] xs"

lemma indexed_member: "(i, x) \<in> set (indexed xs) \<Longrightarrow> x \<in> set xs"
  by (auto simp: indexed_def dest: set_zip_rightD)

lemma indexed_smaller: "(i, x) \<in> set (indexed xs) \<Longrightarrow> size x \<le> size_list size xs"
  using indexed_member[of i x xs] size_list_member[of x xs size] by auto







lemma indexed_case_smaller:
  "(i, c) \<in> set (indexed cs) \<Longrightarrow> (j, s) \<in> set (indexed (case_statements c))
   \<Longrightarrow> size s < size_list size cs"
proof -
  assume a: "(i, c) \<in> set (indexed cs)" and b: "(j, s) \<in> set (indexed (case_statements c))"
  obtain coff cv css where c: "c = SwitchCase coff cv css" by (cases c)
  have "size s \<le> size_list size css" using b c indexed_smaller by fastforce
  then have "size s < size c" using c by simp
  moreover have "size c \<le> size_list size cs" using a indexed_smaller by fastforce
  ultimately show ?thesis by simp
qed














text \<open>
  Scope repair in the words of the spec: walk the inlined outermost block; if it is already a
  scope, done; if it contains anything other than exactly one child block, force the outer
  block to be a scope; otherwise descend one level and repeat. \<open>spec_scope_is_forced\<close> is the
  walk and \<open>spec_scope_repair\<close> the repaired body.
\<close>

function spec_scope_is_forced :: "statement \<Rightarrow> bool" where
  "spec_scope_is_forced walked =
     (case walked of
        Block off ss syms isScope \<Rightarrow>
          if isScope then False
          else if \<not> (length ss = 1 \<and> is_Block (ss ! 0)) then True
          else spec_scope_is_forced (ss ! 0)
      | _ \<Rightarrow> False)"
  by pat_completeness auto
termination
proof (relation "measure size")
  fix walked :: statement and off ss syms isScope
  assume "walked = Block off ss syms isScope" and "\<not> \<not> (length ss = 1 \<and> is_Block (ss ! 0))"
  then obtain s where "ss = [s]" by (cases ss) auto
  then show "(ss ! 0, walked) \<in> measure size"
    using \<open>walked = Block off ss syms isScope\<close> by simp
qed simp

declare spec_scope_is_forced.simps [simp del]

definition spec_scope_repair :: "statement \<Rightarrow> statement" where
  "spec_scope_repair body =
     (case body of
        Block off ss syms isScope \<Rightarrow>
          if spec_scope_is_forced body then Block off ss syms True else body
      | _ \<Rightarrow> body)"

definition inlined_add_t_u_v :: statement where
  "inlined_add_t_u_v =
     Block 5 [InlineMarker 0,
              Block 5 [ExpressionStatement
                 (BinaryExpression 5 (VariableReference 5 (local_var ''t'') kWrite_RefKind)
                    TK_EQ
                    (BinaryExpression 5
                       (VariableReference 5 (local_var ''u'') kRead_RefKind) (TK_OTHER 0)
                       (VariableReference 5 (local_var ''v'') kRead_RefKind) int_type)
                    int_type)] None True] None False"





section \<open>Properties of the returns analyzer\<close>

lemma sum_list_map_nonneg: "(\<And>x. x \<in> set xs \<Longrightarrow> (0::int) \<le> f x) \<Longrightarrow> 0 \<le> sum_list (map f xs)"
  by (induction xs) auto

lemma count_all_returns_stmt_nonneg: "0 \<le> count_all_returns_stmt stmt"
proof (induction "size stmt" arbitrary: stmt rule: less_induct)
  case less
  have kids: "0 \<le> sum_list (map count_all_returns_stmt (child_statements stmt))"
    by (intro sum_list_map_nonneg less child_statements_smaller)
  show ?case
    apply (subst count_all_returns_stmt.simps)
    apply (cases stmt)
    using kids apply (simp_all only: statement.case)
    apply simp_all?
    done
qed

lemma count_returns_at_end_stmt_nonneg: "0 \<le> count_returns_at_end_stmt stmt"
proof (induction "size stmt" arbitrary: stmt rule: less_induct)
  case less
  have kids: "0 \<le> sum_list (map count_returns_at_end_stmt (child_statements stmt))"
    by (intro sum_list_map_nonneg less child_statements_smaller)
  have lst: "0 \<le> count_returns_at_end_stmt (last ss)"
    if "stmt = Block off ss syms sc" "ss \<noteq> []" for off ss syms sc
    using less[of "last ss"] that child_statements_smaller[of "last ss" stmt] by simp
  show ?case
    apply (subst count_returns_at_end_stmt.simps)
    apply (cases stmt)
    using kids lst apply (simp_all only: statement.case)
    apply simp_all?
    done
qed

lemma count_returns_in_breakable_stmt_nonneg: "0 \<le> count_returns_in_breakable_stmt d stmt"
proof (induction "size stmt" arbitrary: d stmt rule: less_induct)
  case less
  have kids: "0 \<le> sum_list (map (count_returns_in_breakable_stmt d') (child_statements stmt))"
    for d'
    by (intro sum_list_map_nonneg less child_statements_smaller)
  show ?case
    apply (subst count_returns_in_breakable_stmt.simps)
    apply (cases stmt)
    using kids apply (simp_all only: statement.case)
    apply simp_all?
    done
qed

lemma sum_list_map_le:
  "(\<And>x. x \<in> set xs \<Longrightarrow> f x \<le> (g x :: int)) \<Longrightarrow> sum_list (map f xs) \<le> sum_list (map g xs)"
  by (induction xs) (auto intro: add_mono)

lemma count_returns_in_breakable_le_all:
  "count_returns_in_breakable_stmt d stmt \<le> count_all_returns_stmt stmt"
proof (induction "size stmt" arbitrary: d stmt rule: less_induct)
  case less
  have kids: "sum_list (map (count_returns_in_breakable_stmt d') (child_statements stmt))
              \<le> sum_list (map count_all_returns_stmt (child_statements stmt))" for d'
    by (intro sum_list_map_le less child_statements_smaller)
  have kids1: "sum_list (map (count_returns_in_breakable_stmt d') (child_statements stmt))
              \<le> 1 + sum_list (map count_all_returns_stmt (child_statements stmt))" for d'
    using kids[of d'] by simp
  show ?case
    apply (subst count_returns_in_breakable_stmt.simps)
    apply (subst count_all_returns_stmt.simps)
    apply (cases stmt)
    using kids kids1 apply (simp_all only: statement.case)
    apply simp_all?
    done
qed

lemma sum_list_last_le:
  assumes "xs \<noteq> []" "\<And>x. x \<in> set xs \<Longrightarrow> g x \<le> (h x :: int)" "f (last xs) + g (last xs) \<le> h (last xs)"
  shows "f (last xs) + sum_list (map g xs) \<le> sum_list (map h xs)"
proof -
  obtain ys y where xs: "xs = ys @ [y]" using assms(1) by (metis rev_exhaust)
  have "sum_list (map g ys) \<le> sum_list (map h ys)"
    by (intro sum_list_map_le assms(2)) (simp add: xs)
  then show ?thesis using assms(3) by (simp add: xs)
qed


lemma tail_plus_breakable_le_all:
  "count_returns_at_end_stmt stmt + count_returns_in_breakable_stmt 0 stmt
   \<le> count_all_returns_stmt stmt"
proof (induction "size stmt" arbitrary: stmt rule: less_induct)
  case less
  have IH: "count_returns_at_end_stmt x + count_returns_in_breakable_stmt 0 x
            \<le> count_all_returns_stmt x"
    if "x \<in> set (child_statements stmt)" for x
    using less that child_statements_smaller by blast
  have loop: "sum_list (map (count_returns_in_breakable_stmt d') (child_statements stmt))
              \<le> sum_list (map count_all_returns_stmt (child_statements stmt))" for d'
    by (intro sum_list_map_le count_returns_in_breakable_le_all)
  have "sum_list (map (\<lambda>x. count_returns_at_end_stmt x + count_returns_in_breakable_stmt 0 x)
                   (child_statements stmt))
        \<le> sum_list (map count_all_returns_stmt (child_statements stmt))"
    by (intro sum_list_map_le IH)
  then have kids: "sum_list (map count_returns_at_end_stmt (child_statements stmt)) +
        sum_list (map (count_returns_in_breakable_stmt 0) (child_statements stmt))
        \<le> sum_list (map count_all_returns_stmt (child_statements stmt))"
    by (simp add: sum_list_addf)
  have blk: "count_returns_at_end_stmt (last ss)
               + sum_list (map (count_returns_in_breakable_stmt 0) (child_statements stmt))
             \<le> sum_list (map count_all_returns_stmt (child_statements stmt))"
    if "stmt = Block off ss syms sc" "ss \<noteq> []" for off ss syms sc
  proof -
    have cs: "child_statements stmt = ss" using that by simp
    show ?thesis unfolding cs
      using that(2) IH[unfolded cs]
      by (intro sum_list_last_le count_returns_in_breakable_le_all) auto
  qed
  show ?case
    apply (subst count_returns_at_end_stmt.simps)
    apply (subst count_returns_in_breakable_stmt.simps)
    apply (subst count_all_returns_stmt.simps)
    apply (cases stmt)
    using kids loop blk count_returns_in_breakable_stmt_nonneg apply (simp_all only: statement.case)
    apply (simp_all add: sum_list_map_nonneg count_returns_in_breakable_stmt_nonneg)?
    done
qed

lemma no_early_return_no_breakable_return:
  "\<not> has_early_return funcDef \<Longrightarrow> count_returns_in_breakable_constructs funcDef = 0"
  using tail_plus_breakable_le_all[of "fBody funcDef"]
    count_returns_in_breakable_stmt_nonneg[of 0 "fBody funcDef"]
    count_returns_at_end_stmt_nonneg[of "fBody funcDef"]
  by (auto simp: has_early_return_def count_returns_in_breakable_constructs_def
       count_all_returns_def count_returns_at_end_of_control_flow_def Let_def split: if_splits)

section \<open>Early returns\<close>

lemmas count_simps = count_all_returns_stmt.simps count_returns_at_end_stmt.simps
  count_returns_in_breakable_stmt.simps

lemma early_counts:
  "count_all_returns \<lparr>fDeclaration = 0, fBody = early_body\<rparr> = 2"
  "count_returns_at_end_of_control_flow \<lparr>fDeclaration = 0, fBody = early_body\<rparr> = 1"
  "count_returns_in_breakable_constructs \<lparr>fDeclaration = 0, fBody = early_body\<rparr> = 0"
  by (simp_all add: count_all_returns_def count_returns_at_end_of_control_flow_def
       count_returns_in_breakable_constructs_def early_body_def count_simps)

lemma loop_counts:
  "count_all_returns \<lparr>fDeclaration = 2, fBody = loop_body\<rparr> = 2"
  "count_returns_at_end_of_control_flow \<lparr>fDeclaration = 2, fBody = loop_body\<rparr> = 1"
  "count_returns_in_breakable_constructs \<lparr>fDeclaration = 2, fBody = loop_body\<rparr> = 1"
  by (simp_all add: count_all_returns_def count_returns_at_end_of_control_flow_def
       count_returns_in_breakable_constructs_def loop_body_def count_simps)

text \<open>
  Claim C8. For every function definition, \<open>has_early_return\<close> is true exactly when the count
  of all returns is strictly greater than the count of returns at the end of control flow; this
  includes the definitions without any return, where the code answers \<open>false\<close> at once.
\<close>

theorem has_early_return_iff:
  "has_early_return funcDef
   \<longleftrightarrow> count_all_returns funcDef > count_returns_at_end_of_control_flow funcDef"
proof (cases "count_all_returns funcDef = 0")
  case True
  have "0 \<le> count_returns_at_end_of_control_flow funcDef"
    by (simp add: count_returns_at_end_of_control_flow_def count_returns_at_end_stmt_nonneg)
  then show ?thesis using True by (simp add: has_early_return_def)
next
  case False
  then show ?thesis by (simp add: has_early_return_def Let_def)
qed

lemma empty_counts:
  "count_all_returns \<lparr>fDeclaration = 0, fBody = Block 0 [] None True\<rparr> = 0"
  "count_returns_at_end_of_control_flow \<lparr>fDeclaration = 0, fBody = Block 0 [] None True\<rparr> = 0"
  by (simp_all add: count_all_returns_def count_returns_at_end_of_control_flow_def count_simps)

theorem has_early_return_iff_witness:
  "has_early_return \<lparr>fDeclaration = 0, fBody = early_body\<rparr>
   \<and> \<not> has_early_return \<lparr>fDeclaration = 0, fBody = Block 0 [] None True\<rparr>"
  using has_early_return_iff[of "\<lparr>fDeclaration = 0, fBody = early_body\<rparr>"]
    has_early_return_iff[of "\<lparr>fDeclaration = 0, fBody = Block 0 [] None True\<rparr>"]
  by (simp add: early_counts empty_counts)

section \<open>The safety check, the size check and recursion\<close>

lemma count_returns_in_breakable_constructs_pos_iff:
  "\<not> count_returns_in_breakable_constructs funcDef > 0
   \<longleftrightarrow> count_returns_in_breakable_constructs funcDef = 0"
  using count_returns_in_breakable_stmt_nonneg[of 0 "fBody funcDef"]
  by (auto simp: count_returns_in_breakable_constructs_def)

text \<open>
  Claim C3. \<open>isSafeToInline\<close> answers \<open>false\<close> for a callee without a definition. For a callee
  with a definition that the size check does not reject: when the capabilities cannot emit do
  loops the answer is the negation of \<open>has_early_return\<close>, and when they can the answer is true
  exactly when \<open>count_returns_in_breakable_constructs\<close> is zero.
\<close>

theorem isSafeToInline_criteria:
  "(fDefinition (decls fFunction) = None
      \<longrightarrow> \<not> isSafeToInline decls NodeCount fSettings fFunction inlineThreshold)
   \<and> (\<forall>functionDef c.
        fDefinition (decls fFunction) = Some functionDef
        \<and> (inlineThreshold < INT_MAX
             \<longrightarrow> kInline_Flag \<in> fFlags (fDeclModifiers (decls (fDeclaration functionDef)))
                 \<or> NodeCount functionDef < inlineThreshold)
        \<longrightarrow> (fCaps fSettings = None \<or> fCaps fSettings = Some c \<and> \<not> canUseDoLoops c
               \<longrightarrow> isSafeToInline decls NodeCount fSettings fFunction inlineThreshold
                   = (\<not> has_early_return functionDef))
            \<and> (fCaps fSettings = Some c \<and> canUseDoLoops c
               \<longrightarrow> isSafeToInline decls NodeCount fSettings fFunction inlineThreshold
                   = (count_returns_in_breakable_constructs functionDef = 0)))"
  by (auto simp: isSafeToInline_def Let_def count_returns_in_breakable_constructs_pos_iff
           simp del: not_less)

lemma early_has_early_return: "has_early_return \<lparr>fDeclaration = 0, fBody = early_body\<rparr>"
  by (simp add: has_early_return_def early_counts)

lemma loop_has_early_return: "has_early_return \<lparr>fDeclaration = 2, fBody = loop_body\<rparr>"
  by (simp add: has_early_return_def loop_counts)

theorem isSafeToInline_criteria_witness:
  "\<not> isSafeToInline example_decls (\<lambda>d. 10) caps_with_do 3 50
   \<and> \<not> isSafeToInline example_decls (\<lambda>d. 10) caps_without_do 0 50
   \<and> isSafeToInline example_decls (\<lambda>d. 10) caps_with_do 0 50
   \<and> \<not> isSafeToInline example_decls (\<lambda>d. 10) caps_with_do 2 50"
  using isSafeToInline_criteria[of example_decls 3 "\<lambda>d. 10" caps_with_do 50]
    isSafeToInline_criteria[of example_decls 0 "\<lambda>d. 10" caps_without_do 50]
    isSafeToInline_criteria[of example_decls 0 "\<lambda>d. 10" caps_with_do 50]
    isSafeToInline_criteria[of example_decls 2 "\<lambda>d. 10" caps_with_do 50]
  by (simp add: example_decls_def caps_with_do_def caps_without_do_def INT_MAX_def
        early_has_early_return early_counts loop_counts)

text \<open>
  Claim C9. With \<open>inlineThreshold = INT_MAX\<close> the size check is skipped: the answer of
  \<open>isSafeToInline\<close> is the same for every node count and for every setting of the modifiers of the
  declarations, the \<^verbatim>\<open>inline\<close> flag among them.
\<close>

theorem isSafeToInline_INT_MAX_ignores_size:
  "isSafeToInline (\<lambda>f. (decls f)\<lparr>fDeclModifiers := mods f\<rparr>) NodeCount' fSettings fFunction INT_MAX
   = isSafeToInline decls NodeCount fSettings fFunction INT_MAX"
  by (simp add: isSafeToInline_def split: option.split)

text \<open>
  Claim C10. A declaration whose definition link is null is never reported as recursive.
\<close>

theorem contains_recursive_call_without_definition:
  "fDefinition (decls funcDecl) = None \<Longrightarrow> \<not> contains_recursive_call matches decls funcDecl"
  by (simp add: contains_recursive_call_def)

theorem contains_recursive_call_without_definition_witness:
  "fDefinition (example_decls 3) = None
   \<and> \<not> contains_recursive_call (\<lambda>a b. True) example_decls 3"
  using contains_recursive_call_without_definition[of example_decls 3 "\<lambda>a b. True"]
  by (simp add: example_decls_def)


theorem isSafeToInline_INT_MAX_ignores_size_witness:
  "isSafeToInline (\<lambda>f. (example_decls f)\<lparr>fDeclModifiers := \<lparr>fFlags = {kInline_Flag}\<rparr>\<rparr>)
     (\<lambda>d. INT_MAX) caps_with_do 0 INT_MAX
   = isSafeToInline example_decls (\<lambda>d. 0) caps_with_do 0 INT_MAX
   \<and> isSafeToInline example_decls (\<lambda>d. INT_MAX) caps_with_do 0 INT_MAX"
  using isSafeToInline_INT_MAX_ignores_size[where decls = example_decls
      and mods = "\<lambda>f. \<lparr>fFlags = {kInline_Flag}\<rparr>" and NodeCount' = "\<lambda>d. INT_MAX"
      and fSettings = caps_with_do and fFunction = 0 and NodeCount = "\<lambda>d. 0"]
    isSafeToInline_INT_MAX_ignores_size[where decls = example_decls
      and mods = "\<lambda>f. fDeclModifiers (example_decls f)" and NodeCount' = "\<lambda>d. INT_MAX"
      and fSettings = caps_with_do and fFunction = 0 and NodeCount = "\<lambda>d. INT_MAX"]
  by (simp add: isSafeToInline_def example_decls_def caps_with_do_def early_counts)

section \<open>Scope repair: the exits of the walk\<close>

text \<open>
  The function on an arbitrary body. Under an if, for, do or while parent: a body that is
  already a scope is unchanged; an unscoped body with no statement or with more than one gets
  the flag; an unscoped body whose only statement is not a block is unchanged; and for an
  unscoped body whose only statement is a block the walk goes on from that child, the body
  getting the flag exactly when the walk from the child ends in the forcing branch. The nested
  blocks are never changed, and under any other parent, or none, the body is unchanged.
\<close>

lemma ensure_scoped_blocks_cases:
  "(is_control_statement p \<longrightarrow>
      ensure_scoped_blocks (Block off ss syms True) (Some p) = Block off ss syms True
    \<and> (length ss \<noteq> 1
        \<longrightarrow> ensure_scoped_blocks (Block off ss syms False) (Some p) = Block off ss syms True)
    \<and> (\<not> is_Block s
        \<longrightarrow> ensure_scoped_blocks (Block off [s] syms False) (Some p)
            = Block off [s] syms False)
    \<and> (is_Block s
        \<longrightarrow> ensure_scoped_blocks (Block off [s] syms False) (Some p)
            = Block off [s] syms (scope_is_forced s)))
   \<and> (\<not> is_control_statement p \<longrightarrow> ensure_scoped_blocks body (Some p) = body)
   \<and> ensure_scoped_blocks body None = body"
  by (auto simp: ensure_scoped_blocks_def scope_is_forced.simps[of "Block _ _ _ _"]
           split: statement.split)

lemma ensure_scoped_blocks_examples:
  "ensure_scoped_blocks (Block 0 [InlineMarker 0, Block 0 [Nop, Nop] None True] None False)
     (Some if_parent)
   = Block 0 [InlineMarker 0, Block 0 [Nop, Nop] None True] None True
   \<and> ensure_scoped_blocks (Block 0 [Block 0 [Nop, Nop] None False] None False) (Some if_parent)
     = Block 0 [Block 0 [Nop, Nop] None False] None True
   \<and> ensure_scoped_blocks (Block 0 [Block 0 [Nop, Nop] None True] None False) (Some if_parent)
     = Block 0 [Block 0 [Nop, Nop] None True] None False
   \<and> ensure_scoped_blocks (Block 0 [Nop] None False) (Some if_parent)
     = Block 0 [Nop] None False
   \<and> ensure_scoped_blocks (Block 0 [] None False) (Some Nop) = Block 0 [] None False"
  using ensure_scoped_blocks_cases[of if_parent 0
      "[InlineMarker 0, Block 0 [Nop, Nop] None True]" None Nop]
    ensure_scoped_blocks_cases[of if_parent 0 "[]" None "Block 0 [Nop, Nop] None False"]
    ensure_scoped_blocks_cases[of if_parent 0 "[]" None "Block 0 [Nop, Nop] None True"]
    ensure_scoped_blocks_cases[of if_parent 0 "[]" None Nop]
    ensure_scoped_blocks_cases[of Nop 0 "[]" None Nop "Block 0 [] None False"]
  by (simp add: if_parent_def scope_is_forced.simps)

section \<open>Generated names\<close>

lemma has_double_underscore_append:
  "has_double_underscore (xs @ ys) \<longleftrightarrow>
     has_double_underscore xs \<or> has_double_underscore ys
     \<or> (xs \<noteq> [] \<and> ys \<noteq> [] \<and> last xs = CHR ''_'' \<and> hd ys = CHR ''_'')"
proof (induction xs)
  case Nil
  show ?case by simp
next
  case (Cons a xs)
  show ?case
  proof (cases xs)
    case Nil
    then show ?thesis by (cases ys) auto
  next
    case (Cons b cs)
    then show ?thesis using Cons.IH by auto
  qed
qed

lemma digit_char_not_underscore: "d < 10 \<Longrightarrow> digit_char d \<noteq> CHR ''_''"
proof
  assume d: "d < 10" and e: "digit_char d = CHR ''_''"
  have "of_char (digit_char d) = (of_char (CHR ''_'') :: nat)" using e by simp
  then show False using d by (simp add: digit_char_def)
qed

lemma decimal_no_underscore: "CHR ''_'' \<notin> set (decimal n)"
proof (induction n rule: decimal.induct)
  case (1 n)
  show ?case
  proof (cases "n < 10")
    case True
    then show ?thesis using digit_char_not_underscore[of n] by (subst decimal.simps) auto
  next
    case False
    then show ?thesis using 1 digit_char_not_underscore[of "n mod 10"]
      by (subst decimal.simps) auto
  qed
qed

lemma no_underscore_no_double: "CHR ''_'' \<notin> set s \<Longrightarrow> \<not> has_double_underscore s"
  by (induction s rule: has_double_underscore.induct) auto

lemma has_double_underscore_Cons:
  "has_double_underscore (a # xs) \<longleftrightarrow>
     (xs \<noteq> [] \<and> a = CHR ''_'' \<and> hd xs = CHR ''_'') \<or> has_double_underscore xs"
  by (cases xs) auto

lemma printf_inline_var_no_double_underscore:
  assumes "\<not> has_double_underscore baseName"
  shows "\<not> has_double_underscore
           (printf_inline_var n (if startsWith baseName ''_'' then [] else ''_'') baseName)"
proof -
  have d: "decimal n \<noteq> []" "last (decimal n) \<noteq> CHR ''_''" "hd (decimal n) \<noteq> CHR ''_''"
    "\<not> has_double_underscore (decimal n)"
    using decimal_nonempty[of n] decimal_no_underscore[of n] no_underscore_no_double
    by (auto dest: last_in_set hd_in_set)
  show ?thesis
  proof (cases "startsWith baseName ''_''")
    case True
    then show ?thesis using assms d
      by (simp add: printf_inline_var_def has_double_underscore_Cons
            has_double_underscore_append hd_append)
  next
    case False
    then have "baseName = [] \<or> hd baseName \<noteq> CHR ''_''"
      by (cases baseName) (auto simp: startsWith_def)
    then show ?thesis using assms d False
      by (auto simp: printf_inline_var_def has_double_underscore_Cons
            has_double_underscore_append hd_append)
  qed
qed

lemma uniqueNameForInlineVar_result:
  "\<exists>N \<ge> c. uniqueNameForInlineVar baseName symbolTable c
           = (printf_inline_var N (if startsWith baseName ''_'' then [] else ''_'') baseName, N + 1)
         \<and> lookup symbolTable
              (printf_inline_var N (if startsWith baseName ''_'' then [] else ''_'') baseName) = None"
proof (induction baseName symbolTable c rule: uniqueNameForInlineVar.induct)
  case (1 baseName symbolTable c)
  let ?name = "printf_inline_var c (if startsWith baseName ''_'' then [] else ''_'') baseName"
  show ?case
  proof (cases "lookup symbolTable ?name = None")
    case True
    then show ?thesis
      by (subst uniqueNameForInlineVar.simps) (auto simp: Let_def intro!: exI[of _ c])
  next
    case False
    from 1[OF refl refl False] obtain N where
      "N \<ge> c + 1" "uniqueNameForInlineVar baseName symbolTable (c + 1)
           = (printf_inline_var N (if startsWith baseName ''_'' then [] else ''_'') baseName, N + 1)"
      "lookup symbolTable
              (printf_inline_var N (if startsWith baseName ''_'' then [] else ''_'') baseName) = None"
      by blast
    then show ?thesis using False
      by (subst uniqueNameForInlineVar.simps) (auto simp: Let_def intro!: exI[of _ N])
  qed
qed


lemma digit_char_values:
  "digit_char 0 = CHR ''0''" "digit_char 1 = CHR ''1''" "digit_char 2 = CHR ''2''"
  "digit_char 3 = CHR ''3''" "digit_char 4 = CHR ''4''" "digit_char 5 = CHR ''5''"
  "digit_char 6 = CHR ''6''" "digit_char 7 = CHR ''7''" "digit_char 8 = CHR ''8''"
  "digit_char 9 = CHR ''9''" "digit_char (Suc 0) = CHR ''1''"
  by (simp_all add: digit_char_def char_of_def bit_Suc_0_iff)

lemmas naming_simps = uniqueNameForInlineVar.simps printf_inline_var_def decimal.simps
  digit_char_values startsWith_def

lemma uniqueNameForInlineVar_examples:
  "uniqueNameForInlineVar ''x'' table_with_0_x 0 = (''_1_x'', 2)"
  "uniqueNameForInlineVar ''_coords'' empty_table 7 = (''_7_coords'', 8)"
  "uniqueNameForInlineVar ''x'' empty_table 0 = (''_0_x'', 1)"
  by (simp_all add: naming_simps table_with_0_x_def empty_table_def)

lemma lookup_examples:
  "lookup table_with_0_x ''_1_x'' = None" "lookup table_with_0_x ''_0_x'' \<noteq> None"
  by (simp_all add: table_with_0_x_def)

text \<open>
  Claim C7, as the spec states it, includes that the generated name never contains the digraph
  \<open>__\<close>, for every base name. A base name that contains the digraph keeps it.
\<close>

theorem uniqueNameForInlineVar_counterexample:
  "\<not> (\<forall>baseName symbolTable c.
        \<not> has_double_underscore (fst (uniqueNameForInlineVar baseName symbolTable c)))"
proof
  assume "\<forall>baseName symbolTable c.
        \<not> has_double_underscore (fst (uniqueNameForInlineVar baseName symbolTable c))"
  then have "\<not> has_double_underscore (fst (uniqueNameForInlineVar ''a__b'' empty_table 0))"
    by blast
  moreover have "uniqueNameForInlineVar ''a__b'' empty_table 0 = (''_0_a__b'', 1)"
    by (simp add: naming_simps empty_table_def)
  ultimately show False by simp
qed

text \<open>
  Claim C7, amended. For every base name, receiving symbol table and counter value \<open>c\<close>,
  \<open>uniqueNameForInlineVar\<close> returns: the name is \<open>_<N><sep><base>\<close> for a counter value
  \<open>N \<ge> c\<close> printed in decimal, where \<open><sep>\<close> is \<open>_\<close> unless the base starts with \<open>_\<close> (then
  empty), and the counter is left at \<open>N + 1\<close>; the name is not found in the receiving symbol
  table; and the name contains no \<open>__\<close> digraph when the base name contains none.
\<close>

theorem uniqueNameForInlineVar_fresh:
  "\<exists>N \<ge> c.
     uniqueNameForInlineVar baseName symbolTable c
       = (''_'' @ decimal N @ (if startsWith baseName ''_'' then [] else ''_'') @ baseName, N + 1)
     \<and> lookup symbolTable (fst (uniqueNameForInlineVar baseName symbolTable c)) = None
     \<and> (\<not> has_double_underscore baseName
        \<longrightarrow> \<not> has_double_underscore (fst (uniqueNameForInlineVar baseName symbolTable c)))"
proof -
  obtain N where N: "N \<ge> c"
    "uniqueNameForInlineVar baseName symbolTable c
       = (printf_inline_var N (if startsWith baseName ''_'' then [] else ''_'') baseName, N + 1)"
    "lookup symbolTable
       (printf_inline_var N (if startsWith baseName ''_'' then [] else ''_'') baseName) = None"
    using uniqueNameForInlineVar_result[of c baseName symbolTable] by blast
  show ?thesis
  proof (intro exI[of _ N] conjI impI)
    show "c \<le> N" by (rule N(1))
    show "uniqueNameForInlineVar baseName symbolTable c
       = (''_'' @ decimal N @ (if startsWith baseName ''_'' then [] else ''_'') @ baseName, N + 1)"
      using N(2) by (simp add: printf_inline_var_def)
    show "lookup symbolTable (fst (uniqueNameForInlineVar baseName symbolTable c)) = None"
      using N(2,3) by simp
    show "\<not> has_double_underscore (fst (uniqueNameForInlineVar baseName symbolTable c))"
      if "\<not> has_double_underscore baseName"
      using N(2) printf_inline_var_no_double_underscore[OF that, of N] by simp
  qed
qed

theorem uniqueNameForInlineVar_fresh_witness:
  "uniqueNameForInlineVar ''x'' table_with_0_x 0 = (''_1_x'', 2)
   \<and> lookup table_with_0_x ''_1_x'' = None
   \<and> lookup table_with_0_x ''_0_x'' \<noteq> None
   \<and> \<not> has_double_underscore ''x''
   \<and> \<not> has_double_underscore ''_1_x''
   \<and> uniqueNameForInlineVar ''_coords'' empty_table 7 = (''_7_coords'', 8)"
  using uniqueNameForInlineVar_fresh[of 0 "''x''" table_with_0_x]
    uniqueNameForInlineVar_fresh[of 7 "''_coords''" empty_table]
  by (simp add: uniqueNameForInlineVar_examples lookup_examples)

section \<open>Return lowering\<close>

text \<open>
  Claim C4. With a result variable \<open>rv\<close> and an expression \<open>e\<close> whose clone is \<open>e'\<close>, the
  statement \<^verbatim>\<open>return e;\<close> becomes the assignment \<open>rv = e'\<close> when \<open>haveEarlyReturns\<close> is false
  and a scoped block of that assignment and a \<^verbatim>\<open>break\<close> when it is true. A return without an
  expression becomes a \<open>Nop\<close> when \<open>haveEarlyReturns\<close> is false and a \<^verbatim>\<open>break\<close> when it is true.
  The cloner state is unchanged in all four cases.
\<close>

theorem inlineStatement_return:
  "(inlineExpression offset (fVarMap st) e = Some e' \<longrightarrow>
      inlineStatement offset (Some rv) False (ReturnStatement off (Some e)) st
        = Some (ExpressionStatement
                  (BinaryExpression offset (VariableReference offset rv kWrite_RefKind) TK_EQ e'
                     (fType rv)), st)
      \<and> inlineStatement offset (Some rv) True (ReturnStatement off (Some e)) st
        = Some (Block offset
                  [ExpressionStatement
                     (BinaryExpression offset (VariableReference offset rv kWrite_RefKind) TK_EQ e'
                        (fType rv)),
                   BreakStatement offset] None True, st))
   \<and> inlineStatement offset returnVar False (ReturnStatement off None) st = Some (Nop, st)
   \<and> inlineStatement offset returnVar True (ReturnStatement off None) st
       = Some (BreakStatement offset, st)"
  by simp

theorem inlineStatement_return_witness:
  "inlineExpression 5 (fVarMap example_state) ref_x
     = Some (VariableReference 5 (local_var ''_0_x'') kRead_RefKind)
   \<and> inlineStatement 5 (Some (local_var ''_1_f'')) False (ReturnStatement 0 (Some ref_x))
       example_state
     = Some (ExpressionStatement
               (BinaryExpression 5 (VariableReference 5 (local_var ''_1_f'') kWrite_RefKind) TK_EQ
                  (VariableReference 5 (local_var ''_0_x'') kRead_RefKind) int_type),
             example_state)
   \<and> inlineStatement 5 (Some (local_var ''_1_f'')) True (ReturnStatement 0 (Some ref_x))
       example_state
     = Some (Block 5
               [ExpressionStatement
                  (BinaryExpression 5 (VariableReference 5 (local_var ''_1_f'') kWrite_RefKind)
                     TK_EQ (VariableReference 5 (local_var ''_0_x'') kRead_RefKind) int_type),
                BreakStatement 5] None True,
             example_state)"
proof -
  have e: "inlineExpression 5 (fVarMap example_state) ref_x
           = Some (VariableReference 5 (local_var ''_0_x'') kRead_RefKind)"
    by (simp add: example_state_def ref_x_def)
  have t: "fType (local_var ''_1_f'') = int_type" by (simp add: local_var_def)
  show ?thesis
    using e inlineStatement_return[of 5 example_state ref_x
        "VariableReference 5 (local_var ''_0_x'') kRead_RefKind" "local_var ''_1_f''" 0 None]
    unfolding t by blast
qed

section \<open>Arguments of an inlined call\<close>

lemma add_has_no_early_return:
  "\<not> has_early_return \<lparr>fDeclaration = 0, fBody = add_body\<rparr>"
  by (simp add: has_early_return_def count_all_returns_def add_body_def count_simps)

lemmas add_example_defs = add_decls_def add_body_def param_r_def param_a_def param_b_def
  local_var_def writes_r_def example_context_def void_type_def int_type_def
  bool_type_def float_type_def empty_table_def temp_0_r_def w_x_def

lemma upt_3: "[0..<3] = [0, 1, 2]"
  by (simp add: upt_rec)

lemma inlineCall_add_t_u_v:
  "inlineCall example_context (\<lambda>e. int_type) writes_r add_decls 5 0
     [VariableReference 0 (local_var ''t'') kRead_RefKind,
      VariableReference 0 (local_var ''u'') kRead_RefKind,
      VariableReference 0 (local_var ''v'') kRead_RefKind] empty_table 0
   = Some (\<lparr>fInlinedBody =
              Block 5 [InlineMarker 0,
                       Block 5 [ExpressionStatement
                          (BinaryExpression 5 (VariableReference 5 (local_var ''t'') kWrite_RefKind)
                             TK_EQ
                             (BinaryExpression 5
                                (VariableReference 5 (local_var ''u'') kRead_RefKind) (TK_OTHER 0)
                                (VariableReference 5 (local_var ''v'') kRead_RefKind) int_type)
                             int_type)] None True] None False,
             fReplacementExpr = BoolLiteral 5 False\<rparr>,
           \<lparr>fInlineVarCounter = 0, fSymbolTable = empty_table,
            fVarMap = [param_r \<mapsto> local_var ''t'', param_a \<mapsto> local_var ''u'',
                       param_b \<mapsto> local_var ''v'']\<rparr>)"
  by (simp add: inlineCall_def has_early_return_def count_all_returns_def count_simps upt_3
        inlineCall_argument_def inlineCall_copy_back_def add_example_defs Let_def)


lemma inlineCall_add_wx_u_v:
  "map_option fst
     (inlineCall example_context (\<lambda>e. int_type) writes_r add_decls 5 0
        [w_x,
         VariableReference 0 (local_var ''u'') kRead_RefKind,
         VariableReference 0 (local_var ''v'') kRead_RefKind] empty_table 0)
   = Some \<lparr>fInlinedBody =
              Block 5 [InlineMarker 0,
                       VarDeclarationsStatement 5 int_type [VarDeclaration temp_0_r [] (Some w_x)],
                       Block 5 [ExpressionStatement
                          (BinaryExpression 5 (VariableReference 5 temp_0_r kWrite_RefKind)
                             TK_EQ
                             (BinaryExpression 5
                                (VariableReference 5 (local_var ''u'') kRead_RefKind) (TK_OTHER 0)
                                (VariableReference 5 (local_var ''v'') kRead_RefKind) int_type)
                             int_type)] None True,
                       ExpressionStatement
                         (BinaryExpression 5 w_x TK_EQ
                            (VariableReference 5 temp_0_r kRead_RefKind) int_type)] None False,
             fReplacementExpr = BoolLiteral 5 False\<rparr>"
  by (simp add: inlineCall_def has_early_return_def count_all_returns_def count_simps upt_3
        inlineCall_argument_def inlineCall_copy_back_def makeInlineVar_def naming_simps
        add_example_defs Let_def)

lemma lookup_add_fresh:
  "lookup st n = None \<Longrightarrow> lookup (add (takeOwnershipOfString st n) n s) n = Some s"
  by (cases st) (auto simp: map_add_def split: option.splits)

lemma makeInlineVar_Some:
  "\<exists>var st'.
     makeInlineVar fContext offset baseName ty mods (Some e) body st
       = Some (var, (if kOut_Flag \<in> fFlags mods then Some e else None),
               body @ [VarDeclarationsStatement offset (fType var) [VarDeclaration var [] (Some e)]],
               st')
     \<and> fType var = (if ty = fFloatLiteral_Type fContext then fFloat_Type fContext
                    else if ty = fIntLiteral_Type fContext then fInt_Type fContext else ty)
     \<and> fModifiers var = \<lparr>fFlags = {}\<rparr> \<and> fStorage var = kLocal_Storage
     \<and> lookup (fSymbolTable st) (fName var) = None
     \<and> lookup (fSymbolTable st') (fName var) = Some (SymVariable var)
     \<and> fVarMap st' = fVarMap st"
proof -
  obtain N where N:
    "uniqueNameForInlineVar baseName (fSymbolTable st) (fInlineVarCounter st)
       = (printf_inline_var N (if startsWith baseName ''_'' then [] else ''_'') baseName, N + 1)"
    "lookup (fSymbolTable st)
       (printf_inline_var N (if startsWith baseName ''_'' then [] else ''_'') baseName) = None"
    using uniqueNameForInlineVar_result[of "fInlineVarCounter st" baseName "fSymbolTable st"]
    by blast
  show ?thesis
    using N(2) by (simp add: makeInlineVar_def N(1) Let_def lookup_add_fresh)
qed


text \<open>
  Claim C1, as the spec states it: an argument is passed through only when the parameter does
  not carry \<^verbatim>\<open>out\<close>. In \<^verbatim>\<open>add(t, u, v)\<close> the parameter \<open>r\<close> carries \<^verbatim>\<open>out\<close>, and the
  code passes \<open>t\<close> through: the inlined body declares no temporary, the body clone writes to
  \<open>t\<close>, nothing is copied back, and the rewrite map sends \<open>r\<close> to \<open>t\<close>.
\<close>

theorem inlineCall_pass_through_counterexample:
  "kOut_Flag \<in> fFlags (fModifiers param_r)
   \<and> inlineCall example_context (\<lambda>e. int_type) writes_r add_decls 5 0
       [VariableReference 0 (local_var ''t'') kRead_RefKind,
        VariableReference 0 (local_var ''u'') kRead_RefKind,
        VariableReference 0 (local_var ''v'') kRead_RefKind] empty_table 0
     = Some (\<lparr>fInlinedBody =
                Block 5 [InlineMarker 0,
                         Block 5 [ExpressionStatement
                            (BinaryExpression 5
                               (VariableReference 5 (local_var ''t'') kWrite_RefKind) TK_EQ
                               (BinaryExpression 5
                                  (VariableReference 5 (local_var ''u'') kRead_RefKind) (TK_OTHER 0)
                                  (VariableReference 5 (local_var ''v'') kRead_RefKind) int_type)
                               int_type)] None True] None False,
               fReplacementExpr = BoolLiteral 5 False\<rparr>,
             \<lparr>fInlineVarCounter = 0, fSymbolTable = empty_table,
              fVarMap = [param_r \<mapsto> local_var ''t'', param_a \<mapsto> local_var ''u'',
                         param_b \<mapsto> local_var ''v'']\<rparr>)"
  using inlineCall_add_t_u_v by (simp add: param_r_def)

text \<open>
  Claim C1, amended. At every argument position \<open>i\<close> of a call rewritten by \<open>inlineCall\<close>: the
  argument is passed through (the statements and the symbol table are unchanged and the rewrite
  map sends the parameter to the argument's variable) exactly when the argument is a plain
  variable reference and the parameter either carries \<^verbatim>\<open>out\<close> or is not written to by the
  callee body; in every other case a temporary is materialized: one declaration is appended,
  the rewrite map sends the parameter to the new variable, and the new variable's name was
  unused in the symbol table of the call and is now bound to it.
\<close>

theorem inlineCall_argument_choice:
  "i < length fParams \<and> i < length (fArguments cs) \<and> fArguments cs ! i = Some argument \<longrightarrow>
     (\<forall>voff v refKind.
        argument = VariableReference voff v refKind
        \<and> (kOut_Flag \<in> fFlags (fModifiers (fParams ! i))
           \<or> \<not> StatementWritesToVariable (fBody function) (fParams ! i))
        \<longrightarrow> inlineCall_argument fContext typeOf StatementWritesToVariable function fParams
              offset i cs
            = Some (cs\<lparr>fInliner :=
                       (fInliner cs)\<lparr>fVarMap := (fVarMap (fInliner cs))(fParams ! i \<mapsto> v)\<rparr>\<rparr>))
     \<and> (\<not> (\<exists>voff v refKind.
              argument = VariableReference voff v refKind
              \<and> (kOut_Flag \<in> fFlags (fModifiers (fParams ! i))
                 \<or> \<not> StatementWritesToVariable (fBody function) (fParams ! i)))
        \<longrightarrow> (\<exists>var st'.
              inlineCall_argument fContext typeOf StatementWritesToVariable function fParams
                offset i cs
              = Some \<lparr>fArguments = (fArguments cs)
                         [i := if kOut_Flag \<in> fFlags (fModifiers (fParams ! i))
                               then Some argument else None],
                       fStatements = fStatements cs @
                         [VarDeclarationsStatement offset (fType var)
                            [VarDeclaration var [] (Some argument)]],
                       fInliner = st'\<lparr>fVarMap :=
                                        (fVarMap (fInliner cs))(fParams ! i \<mapsto> var)\<rparr>\<rparr>
              \<and> lookup (fSymbolTable (fInliner cs)) (fName var) = None
              \<and> lookup (fSymbolTable st') (fName var) = Some (SymVariable var)))"
proof (intro impI conjI allI)
  fix voff v refKind
  assume a: "i < length fParams \<and> i < length (fArguments cs) \<and> fArguments cs ! i = Some argument"
    and b: "argument = VariableReference voff v refKind
        \<and> (kOut_Flag \<in> fFlags (fModifiers (fParams ! i))
           \<or> \<not> StatementWritesToVariable (fBody function) (fParams ! i))"
  show "inlineCall_argument fContext typeOf StatementWritesToVariable function fParams offset i cs
        = Some (cs\<lparr>fInliner :=
                   (fInliner cs)\<lparr>fVarMap := (fVarMap (fInliner cs))(fParams ! i \<mapsto> v)\<rparr>\<rparr>)"
    using a b by (auto simp: inlineCall_argument_def Let_def)
next
  assume a: "i < length fParams \<and> i < length (fArguments cs) \<and> fArguments cs ! i = Some argument"
    and b: "\<not> (\<exists>voff v refKind.
              argument = VariableReference voff v refKind
              \<and> (kOut_Flag \<in> fFlags (fModifiers (fParams ! i))
                 \<or> \<not> StatementWritesToVariable (fBody function) (fParams ! i)))"
  have direct: "(case argument of
            VariableReference voff v refKind \<Rightarrow>
              if kOut_Flag \<in> fFlags (fModifiers (fParams ! i))
                 \<or> \<not> StatementWritesToVariable (fBody function) (fParams ! i)
              then Some v else None
          | _ \<Rightarrow> None) = None"
    using b by (cases argument) auto
  obtain var st' where m:
    "makeInlineVar fContext offset (fName (fParams ! i)) (typeOf argument)
       (fModifiers (fParams ! i)) (Some argument) (fStatements cs) (fInliner cs)
     = Some (var, (if kOut_Flag \<in> fFlags (fModifiers (fParams ! i)) then Some argument else None),
             fStatements cs @ [VarDeclarationsStatement offset (fType var)
                                 [VarDeclaration var [] (Some argument)]], st')"
    "lookup (fSymbolTable (fInliner cs)) (fName var) = None"
    "lookup (fSymbolTable st') (fName var) = Some (SymVariable var)"
    "fVarMap st' = fVarMap (fInliner cs)"
    using makeInlineVar_Some[of fContext offset "fName (fParams ! i)" "typeOf argument"
        "fModifiers (fParams ! i)" argument "fStatements cs" "fInliner cs"]
    by blast
  have "inlineCall_argument fContext typeOf StatementWritesToVariable function fParams offset i cs
        = Some \<lparr>fArguments = (fArguments cs)
                   [i := if kOut_Flag \<in> fFlags (fModifiers (fParams ! i))
                         then Some argument else None],
                 fStatements = fStatements cs @
                   [VarDeclarationsStatement offset (fType var)
                      [VarDeclaration var [] (Some argument)]],
                 fInliner = st'\<lparr>fVarMap := (fVarMap (fInliner cs))(fParams ! i \<mapsto> var)\<rparr>\<rparr>"
    using a by (simp add: inlineCall_argument_def Let_def direct m(1) m(4))
  then show "\<exists>var st'.
       inlineCall_argument fContext typeOf StatementWritesToVariable function fParams offset i cs
       = Some \<lparr>fArguments = (fArguments cs)
                  [i := if kOut_Flag \<in> fFlags (fModifiers (fParams ! i))
                        then Some argument else None],
                fStatements = fStatements cs @
                  [VarDeclarationsStatement offset (fType var)
                     [VarDeclaration var [] (Some argument)]],
                fInliner = st'\<lparr>fVarMap := (fVarMap (fInliner cs))(fParams ! i \<mapsto> var)\<rparr>\<rparr>
       \<and> lookup (fSymbolTable (fInliner cs)) (fName var) = None
       \<and> lookup (fSymbolTable st') (fName var) = Some (SymVariable var)"
    using m(2) m(3) by blast
qed


lemmas call_example_defs = add_example_defs add_definition_def call_add_t_u_v_def
  call_add_wx_u_v_def table_with_temp_0_r_def

theorem inlineCall_argument_choice_witness:
  "inlineCall_argument example_context (\<lambda>e. int_type) writes_r add_definition
     [param_r, param_a, param_b] 5 0 call_add_t_u_v
   = Some (call_add_t_u_v\<lparr>fInliner :=
        \<lparr>fInlineVarCounter = 0, fSymbolTable = empty_table,
         fVarMap = [param_r \<mapsto> local_var ''t'']\<rparr>\<rparr>)
   \<and> inlineCall_argument example_context (\<lambda>e. int_type) writes_r add_definition
       [param_r, param_a, param_b] 5 0 call_add_wx_u_v
     = Some \<lparr>fArguments = fArguments call_add_wx_u_v,
              fStatements = [InlineMarker 0,
                VarDeclarationsStatement 5 int_type [VarDeclaration temp_0_r [] (Some w_x)]],
              fInliner = \<lparr>fInlineVarCounter = 1, fSymbolTable = table_with_temp_0_r,
                          fVarMap = [param_r \<mapsto> temp_0_r]\<rparr>\<rparr>"
  using inlineCall_argument_choice[of 0 "[param_r, param_a, param_b]" call_add_t_u_v
      "VariableReference 0 (local_var ''t'') kRead_RefKind" writes_r add_definition
      example_context "\<lambda>e. int_type" 5]
    inlineCall_argument_choice[of 0 "[param_r, param_a, param_b]" call_add_wx_u_v
      w_x writes_r add_definition example_context "\<lambda>e. int_type" 5]
  by (simp add: inlineCall_argument_def makeInlineVar_def naming_simps call_example_defs Let_def)

text \<open>
  Claim C2, as the spec states it: the temporary carries the parameter's modifiers. In
  \<^verbatim>\<open>add(w.x, u, v)\<close> the argument for the \<^verbatim>\<open>out\<close> parameter \<open>r\<close> is materialized as
  \<open>_0_r\<close>, whose modifiers are the empty \<^verbatim>\<open>Modifiers()\<close> and not those of \<open>r\<close>.
\<close>

theorem inlineCall_temporary_counterexample:
  "fModifiers temp_0_r \<noteq> fModifiers param_r
   \<and> map_option fst
       (inlineCall example_context (\<lambda>e. int_type) writes_r add_decls 5 0
          [w_x,
           VariableReference 0 (local_var ''u'') kRead_RefKind,
           VariableReference 0 (local_var ''v'') kRead_RefKind] empty_table 0)
     = Some \<lparr>fInlinedBody =
                Block 5 [InlineMarker 0,
                         VarDeclarationsStatement 5 int_type
                           [VarDeclaration temp_0_r [] (Some w_x)],
                         Block 5 [ExpressionStatement
                            (BinaryExpression 5 (VariableReference 5 temp_0_r kWrite_RefKind)
                               TK_EQ
                               (BinaryExpression 5
                                  (VariableReference 5 (local_var ''u'') kRead_RefKind) (TK_OTHER 0)
                                  (VariableReference 5 (local_var ''v'') kRead_RefKind) int_type)
                               int_type)] None True,
                         ExpressionStatement
                           (BinaryExpression 5 w_x TK_EQ
                              (VariableReference 5 temp_0_r kRead_RefKind) int_type)] None False,
               fReplacementExpr = BoolLiteral 5 False\<rparr>"
  using inlineCall_add_wx_u_v by (simp add: temp_0_r_def param_r_def)

lemma makeInlineVar_exact:
  "uniqueNameForInlineVar baseName (fSymbolTable st) (fInlineVarCounter st) = (name, counter)
   \<Longrightarrow> var = \<lparr>fOffset = - 1, fModifiers = \<lparr>fFlags = {}\<rparr>, fName = name,
              fType = (if ty = fFloatLiteral_Type fContext then fFloat_Type fContext
                       else if ty = fIntLiteral_Type fContext then fInt_Type fContext else ty),
              fStorage = kLocal_Storage\<rparr>
   \<Longrightarrow> makeInlineVar fContext offset baseName ty mods (Some e) body st
       = Some (var, (if kOut_Flag \<in> fFlags mods then Some e else None),
               body @ [VarDeclarationsStatement offset (fType var) [VarDeclaration var [] (Some e)]],
               st\<lparr>fInlineVarCounter := counter,
                  fSymbolTable := add (takeOwnershipOfString (fSymbolTable st) name) name
                                    (SymVariable var)\<rparr>)"
  by (simp add: makeInlineVar_def Let_def)

text \<open>
  Claim C2, amended. For every argument that \<open>inlineCall\<close> materializes into a temporary (the
  step for its position appends a statement), the rewrite map sends the parameter to a new
  variable that has the argument's type (\<open>$floatLiteral\<close> and \<open>$intLiteral\<close> replaced by
  \<open>float\<close> and \<open>int\<close>), the default, empty modifiers, local storage and offset \<open>-1\<close>, and whose
  name is the one \<open>uniqueNameForInlineVar\<close> makes from the parameter's name; the counter and the
  symbol table of the call end as that name generation and the insertion of the new variable
  leave them; the appended statement declares the variable with the argument expression as
  initializer; and when the parameter has the \<^verbatim>\<open>out\<close> modifier the argument expression is
  still in the argument vector (the initializer is a clone), while otherwise the argument was
  moved into the declaration. The parameter's modifiers are read for the \<^verbatim>\<open>out\<close> flag
  only: any other modifiers with the same \<^verbatim>\<open>out\<close> flag give the same temporary, the same
  declaration and the same state.
\<close>

theorem inlineCall_argument_temporary:
  "i < length fParams \<and> i < length (fArguments cs) \<and> fArguments cs ! i = Some argument
   \<and> inlineCall_argument fContext typeOf StatementWritesToVariable function fParams offset i cs
     = Some cs'
   \<and> fStatements cs' \<noteq> fStatements cs
   \<longrightarrow> (\<exists>var.
        fVarMap (fInliner cs') (fParams ! i) = Some var
        \<and> fType var = (if typeOf argument = fFloatLiteral_Type fContext then fFloat_Type fContext
                       else if typeOf argument = fIntLiteral_Type fContext then fInt_Type fContext
                       else typeOf argument)
        \<and> fModifiers var = \<lparr>fFlags = {}\<rparr>
        \<and> fStorage var = kLocal_Storage
        \<and> fOffset var = - 1
        \<and> (fName var, fInlineVarCounter (fInliner cs'))
            = uniqueNameForInlineVar (fName (fParams ! i)) (fSymbolTable (fInliner cs))
                (fInlineVarCounter (fInliner cs))
        \<and> fSymbolTable (fInliner cs')
            = add (takeOwnershipOfString (fSymbolTable (fInliner cs)) (fName var)) (fName var)
                (SymVariable var)
        \<and> fVarMap (fInliner cs') = (fVarMap (fInliner cs))(fParams ! i \<mapsto> var)
        \<and> fStatements cs' = fStatements cs @
              [VarDeclarationsStatement offset (fType var) [VarDeclaration var [] (Some argument)]]
        \<and> fArguments cs' = (fArguments cs)
              [i := if kOut_Flag \<in> fFlags (fModifiers (fParams ! i)) then Some argument else None]
        \<and> fArguments cs' ! i = (if kOut_Flag \<in> fFlags (fModifiers (fParams ! i))
                                 then Some argument else None))
     \<and> (\<forall>mods'.
          (kOut_Flag \<in> fFlags mods') = (kOut_Flag \<in> fFlags (fModifiers (fParams ! i)))
          \<longrightarrow> makeInlineVar fContext offset (fName (fParams ! i)) (typeOf argument) mods'
                (Some argument) (fStatements cs) (fInliner cs)
              = makeInlineVar fContext offset (fName (fParams ! i)) (typeOf argument)
                  (fModifiers (fParams ! i)) (Some argument) (fStatements cs) (fInliner cs))"
proof (intro impI conjI allI)
  assume a: "i < length fParams \<and> i < length (fArguments cs) \<and> fArguments cs ! i = Some argument
   \<and> inlineCall_argument fContext typeOf StatementWritesToVariable function fParams offset i cs
     = Some cs'
   \<and> fStatements cs' \<noteq> fStatements cs"
  obtain name counter where u:
    "uniqueNameForInlineVar (fName (fParams ! i)) (fSymbolTable (fInliner cs))
       (fInlineVarCounter (fInliner cs)) = (name, counter)"
    by (cases "uniqueNameForInlineVar (fName (fParams ! i)) (fSymbolTable (fInliner cs))
       (fInlineVarCounter (fInliner cs))")
  define var where "var = \<lparr>fOffset = - 1, fModifiers = \<lparr>fFlags = {}\<rparr>, fName = name,
      fType = (if typeOf argument = fFloatLiteral_Type fContext then fFloat_Type fContext
               else if typeOf argument = fIntLiteral_Type fContext then fInt_Type fContext
               else typeOf argument),
      fStorage = kLocal_Storage\<rparr>"
  note m = makeInlineVar_exact[OF u var_def, of offset "fModifiers (fParams ! i)" argument
      "fStatements cs"]
  have cs': "cs' = \<lparr>fArguments = (fArguments cs)
                   [i := if kOut_Flag \<in> fFlags (fModifiers (fParams ! i))
                         then Some argument else None],
                 fStatements = fStatements cs @
                   [VarDeclarationsStatement offset (fType var)
                      [VarDeclaration var [] (Some argument)]],
                 fInliner = \<lparr>fInlineVarCounter = counter,
                   fSymbolTable = add (takeOwnershipOfString (fSymbolTable (fInliner cs)) name) name
                                    (SymVariable var),
                   fVarMap = (fVarMap (fInliner cs))(fParams ! i \<mapsto> var)\<rparr>\<rparr>"
    using a by (auto simp: inlineCall_argument_def Let_def m split: option.splits)
  have v: "fName var = name" "fOffset var = - 1" "fModifiers var = \<lparr>fFlags = {}\<rparr>"
    "fStorage var = kLocal_Storage"
    "fType var = (if typeOf argument = fFloatLiteral_Type fContext then fFloat_Type fContext
                  else if typeOf argument = fIntLiteral_Type fContext then fInt_Type fContext
                  else typeOf argument)"
    by (simp_all add: var_def)
  show "\<exists>var.
        fVarMap (fInliner cs') (fParams ! i) = Some var
        \<and> fType var = (if typeOf argument = fFloatLiteral_Type fContext then fFloat_Type fContext
                       else if typeOf argument = fIntLiteral_Type fContext then fInt_Type fContext
                       else typeOf argument)
        \<and> fModifiers var = \<lparr>fFlags = {}\<rparr>
        \<and> fStorage var = kLocal_Storage
        \<and> fOffset var = - 1
        \<and> (fName var, fInlineVarCounter (fInliner cs'))
            = uniqueNameForInlineVar (fName (fParams ! i)) (fSymbolTable (fInliner cs))
                (fInlineVarCounter (fInliner cs))
        \<and> fSymbolTable (fInliner cs')
            = add (takeOwnershipOfString (fSymbolTable (fInliner cs)) (fName var)) (fName var)
                (SymVariable var)
        \<and> fVarMap (fInliner cs') = (fVarMap (fInliner cs))(fParams ! i \<mapsto> var)
        \<and> fStatements cs' = fStatements cs @
              [VarDeclarationsStatement offset (fType var) [VarDeclaration var [] (Some argument)]]
        \<and> fArguments cs' = (fArguments cs)
              [i := if kOut_Flag \<in> fFlags (fModifiers (fParams ! i)) then Some argument else None]
        \<and> fArguments cs' ! i = (if kOut_Flag \<in> fFlags (fModifiers (fParams ! i))
                                 then Some argument else None)"
    using a by (intro exI[of _ var]) (simp add: cs' v u)
next
  fix mods' :: modifiers
  assume "(kOut_Flag \<in> fFlags mods') = (kOut_Flag \<in> fFlags (fModifiers (fParams ! i)))"
  then show "makeInlineVar fContext offset (fName (fParams ! i)) (typeOf argument) mods'
                (Some argument) (fStatements cs) (fInliner cs)
              = makeInlineVar fContext offset (fName (fParams ! i)) (typeOf argument)
                  (fModifiers (fParams ! i)) (Some argument) (fStatements cs) (fInliner cs)"
    by (simp add: makeInlineVar_def)
qed


theorem inlineCall_argument_temporary_witness:
  "inlineCall_argument example_context (\<lambda>e. int_type) writes_r add_definition
       [param_r, param_a, param_b] 5 0 call_add_wx_u_v
     = Some \<lparr>fArguments = fArguments call_add_wx_u_v,
              fStatements = [InlineMarker 0,
                VarDeclarationsStatement 5 int_type [VarDeclaration temp_0_r [] (Some w_x)]],
              fInliner = \<lparr>fInlineVarCounter = 1, fSymbolTable = table_with_temp_0_r,
                          fVarMap = [param_r \<mapsto> temp_0_r]\<rparr>\<rparr>
   \<and> fType temp_0_r = int_type \<and> fModifiers temp_0_r = \<lparr>fFlags = {}\<rparr>
   \<and> fStorage temp_0_r = kLocal_Storage \<and> fOffset temp_0_r = - 1
   \<and> (fName temp_0_r, 1) = uniqueNameForInlineVar (fName param_r) empty_table 0
   \<and> makeInlineVar example_context 5 (fName param_r) int_type
         \<lparr>fFlags = {kOut_Flag, kIn_Flag, kConst_Flag}\<rparr> (Some w_x) [InlineMarker 0]
         (fInliner call_add_wx_u_v)
       = makeInlineVar example_context 5 (fName param_r) int_type (fModifiers param_r)
           (Some w_x) [InlineMarker 0] (fInliner call_add_wx_u_v)"
  using inlineCall_argument_temporary[of 0 "[param_r, param_a, param_b]" call_add_wx_u_v
      w_x example_context "\<lambda>e. int_type" writes_r add_definition 5
      "\<lparr>fArguments = fArguments call_add_wx_u_v,
              fStatements = [InlineMarker 0,
                VarDeclarationsStatement 5 int_type [VarDeclaration temp_0_r [] (Some w_x)]],
              fInliner = \<lparr>fInlineVarCounter = 1, fSymbolTable = table_with_temp_0_r,
                          fVarMap = [param_r \<mapsto> temp_0_r]\<rparr>\<rparr>"]
  by (simp add: inlineCall_argument_def makeInlineVar_def naming_simps call_example_defs Let_def)

section \<open>Scope repair of an inlined body\<close>

lemma for_each_mono:
  assumes "\<And>i s s'. f i s = Some s' \<Longrightarrow> (m s :: nat) \<le> m s'"
  shows "for_each f ixs s = Some s' \<Longrightarrow> m s \<le> m s'"
proof (induction ixs arbitrary: s)
  case Nil
  then show ?case by simp
next
  case (Cons i ixs)
  then obtain s1 where s1: "f i s = Some s1" "for_each f ixs s1 = Some s'"
    by (auto split: option.splits)
  have "m s \<le> m s1" using assms s1(1) .
  also have "m s1 \<le> m s'" using Cons.IH s1(2) .
  finally show ?case .
qed

lemma makeInlineVar_length:
  "makeInlineVar fContext offset baseName ty mods initialValue body st = Some (v, r, b, st')
   \<Longrightarrow> length b = Suc (length body)"
  by (auto simp: makeInlineVar_def Let_def split: prod.splits if_splits option.splits)

lemma inlineCall_argument_length:
  "inlineCall_argument fContext typeOf W function fParams offset i cs = Some cs'
   \<Longrightarrow> length (fStatements cs) \<le> length (fStatements cs')"
  by (auto simp: inlineCall_argument_def Let_def bind_eq_Some_conv
           split: if_splits option.splits dest!: makeInlineVar_length)

lemma inlineCall_copy_back_length:
  "inlineCall_copy_back typeOf fParams offset i cs = Some cs'
   \<Longrightarrow> length (fStatements cs) \<le> length (fStatements cs')"
  by (auto simp: inlineCall_copy_back_def Let_def split: if_splits option.splits)


lemma arguments_loop_length:
  "for_each (inlineCall_argument fContext typeOf W fn fParams offset) ixs cs = Some cs'
   \<Longrightarrow> length (fStatements cs) \<le> length (fStatements cs')"
  by (rule for_each_mono[where m = "\<lambda>s. length (fStatements s)"
        and f = "inlineCall_argument fContext typeOf W fn fParams offset"])
     (auto dest: inlineCall_argument_length)

lemma copy_back_loop_length:
  "for_each (inlineCall_copy_back typeOf fParams offset) ixs cs = Some cs'
   \<Longrightarrow> length (fStatements cs) \<le> length (fStatements cs')"
  by (rule for_each_mono[where m = "\<lambda>s. length (fStatements s)"
        and f = "inlineCall_copy_back typeOf fParams offset"])
     (auto dest: inlineCall_copy_back_length)

lemma inlineCall_body_shape:
  assumes a: "inlineCall fContext typeOf W decls offset fFunction arguments symbolTableForCall
                counter = Some (call, st)"
  shows "\<exists>ss. fInlinedBody call = Block offset ss None False \<and> 2 \<le> length ss"
proof -
  obtain fn where f: "fDefinition (decls fFunction) = Some fn"
    using a by (auto simp: inlineCall_def split: option.splits)
  let ?decl = "decls (fDeclaration fn)"
  let ?st0 = "\<lparr>fInlineVarCounter = counter, fSymbolTable = symbolTableForCall,
               fVarMap = Map.empty\<rparr>"
  let ?first = "if fReturnType ?decl \<noteq> fVoid_Type fContext then
                  do { (v, r, b, s) \<leftarrow>
                         makeInlineVar fContext offset (fDeclName ?decl)
                           (fReturnType ?decl) \<lparr>fFlags = {}\<rparr> None [InlineMarker fFunction] ?st0;
                       Some (Some v, b, s) }
                else Some (None, [InlineMarker fFunction], ?st0)"
  obtain resultVar body1 st1 where r: "?first = Some (resultVar, body1, st1)"
    using a f by (cases ?first) (auto simp: inlineCall_def Let_def)
  have b1: "1 \<le> length body1"
    using r by (auto simp: bind_eq_Some_conv split: if_splits dest!: makeInlineVar_length)
  let ?loop1 = "for_each
                 (inlineCall_argument fContext typeOf W fn (fParameters ?decl) offset)
                 [0..<length arguments]
                 \<lparr>fArguments = map Some arguments, fStatements = body1, fInliner = st1\<rparr>"
  obtain cs where c: "?loop1 = Some cs"
    using a f r by (cases ?loop1) (auto simp: inlineCall_def Let_def)
  have c1: "1 \<le> length (fStatements cs)"
    using arguments_loop_length[OF c] b1 by simp
  obtain boff bodyStatements bsyms bscope where
    blk: "fBody fn = Block boff bodyStatements bsyms bscope"
    using a f r c by (cases "fBody fn") (auto simp: inlineCall_def Let_def)
  let ?clone = "clone_all (\<lambda>s t. inlineStatement offset resultVar (has_early_return fn) s t)
                  bodyStatements (fInliner cs)"
  obtain stmts st2 where cl: "?clone = Some (stmts, st2)"
    using a f r c blk by (cases ?clone) (auto simp: inlineCall_def Let_def)
  let ?body2 = "fStatements cs @
                  [if has_early_return fn
                   then DoStatement (- 1) (Block offset stmts None True) (BoolLiteral offset False)
                   else Block offset stmts None True]"
  let ?loop2 = "for_each (inlineCall_copy_back typeOf (fParameters ?decl) offset)
                  [0..<length arguments] (cs\<lparr>fStatements := ?body2, fInliner := st2\<rparr>)"
  obtain cs' where c': "?loop2 = Some cs'"
    using a f r c blk cl by (cases ?loop2) (auto simp: inlineCall_def Let_def)
  have c2: "2 \<le> length (fStatements cs')"
    using copy_back_loop_length[OF c'] c1 by simp
  have "fInlinedBody call = Block offset (fStatements cs') None False"
    using a f r c blk cl c'
    by (auto simp: inlineCall_def Let_def bind_eq_Some_conv split: if_splits)
  then show ?thesis using c2 by blast
qed


lemma scope_forced_of_long_block:
  "2 \<le> length ss \<Longrightarrow> scope_is_forced (Block off ss syms False)"
  "2 \<le> length ss \<Longrightarrow> spec_scope_is_forced (Block off ss syms False)"
  by (simp_all add: scope_is_forced.simps spec_scope_is_forced.simps)

text \<open>
  Claim C5. The only caller of \<^verbatim>\<open>ensure_scoped_blocks\<close> passes the body that
  \<open>inlineCall\<close> has just returned. For every such inlined body placed under an if, for, while
  or do statement, the code repairs the scope as the spec says: the result is the one of the
  walk in the spec's words (already a scope: unchanged; anything other than exactly one child
  block: the outermost flag is set; exactly one child block: descend and repeat). An inlined
  body is an unscoped block of the inline marker, the cloned body and whatever else the call
  needs, at least two statements, so that the walk ends at once and sets the flag.
\<close>

theorem ensure_scoped_blocks_inlined_body:
  "inlineCall fContext typeOf StatementWritesToVariable decls offset fFunction arguments
     symbolTableForCall counter = Some (call, st)
   \<and> is_control_statement parentStmt
   \<longrightarrow> ensure_scoped_blocks (fInlinedBody call) (Some parentStmt)
         = spec_scope_repair (fInlinedBody call)
       \<and> (\<exists>ss. fInlinedBody call = Block offset ss None False \<and> 2 \<le> length ss
               \<and> ensure_scoped_blocks (fInlinedBody call) (Some parentStmt)
                   = Block offset ss None True)"
proof (intro impI)
  assume a: "inlineCall fContext typeOf StatementWritesToVariable decls offset fFunction arguments
     symbolTableForCall counter = Some (call, st)
   \<and> is_control_statement parentStmt"
  then obtain ss where ss: "fInlinedBody call = Block offset ss None False" "2 \<le> length ss"
    using inlineCall_body_shape by blast
  have e: "ensure_scoped_blocks (fInlinedBody call) (Some parentStmt) = Block offset ss None True"
    using a ss by (simp add: ensure_scoped_blocks_def scope_forced_of_long_block)
  have "spec_scope_repair (fInlinedBody call) = Block offset ss None True"
    using ss by (simp add: spec_scope_repair_def scope_forced_of_long_block)
  then show "ensure_scoped_blocks (fInlinedBody call) (Some parentStmt)
         = spec_scope_repair (fInlinedBody call)
       \<and> (\<exists>ss. fInlinedBody call = Block offset ss None False \<and> 2 \<le> length ss
               \<and> ensure_scoped_blocks (fInlinedBody call) (Some parentStmt)
                   = Block offset ss None True)"
    using e ss by auto
qed

theorem ensure_scoped_blocks_inlined_body_witness:
  "inlineCall example_context (\<lambda>e. int_type) writes_r add_decls 5 0
       [VariableReference 0 (local_var ''t'') kRead_RefKind,
        VariableReference 0 (local_var ''u'') kRead_RefKind,
        VariableReference 0 (local_var ''v'') kRead_RefKind] empty_table 0
     = Some (\<lparr>fInlinedBody = inlined_add_t_u_v, fReplacementExpr = BoolLiteral 5 False\<rparr>,
             \<lparr>fInlineVarCounter = 0, fSymbolTable = empty_table,
              fVarMap = [param_r \<mapsto> local_var ''t'', param_a \<mapsto> local_var ''u'',
                         param_b \<mapsto> local_var ''v'']\<rparr>)
   \<and> is_control_statement if_parent
   \<and> ensure_scoped_blocks inlined_add_t_u_v (Some if_parent)
       = spec_scope_repair inlined_add_t_u_v
   \<and> ensure_scoped_blocks inlined_add_t_u_v (Some if_parent)
       = Block 5 [InlineMarker 0,
              Block 5 [ExpressionStatement
                 (BinaryExpression 5 (VariableReference 5 (local_var ''t'') kWrite_RefKind)
                    TK_EQ
                    (BinaryExpression 5
                       (VariableReference 5 (local_var ''u'') kRead_RefKind) (TK_OTHER 0)
                       (VariableReference 5 (local_var ''v'') kRead_RefKind) int_type)
                    int_type)] None True] None True"
proof -
  have c: "inlineCall example_context (\<lambda>e. int_type) writes_r add_decls 5 0
       [VariableReference 0 (local_var ''t'') kRead_RefKind,
        VariableReference 0 (local_var ''u'') kRead_RefKind,
        VariableReference 0 (local_var ''v'') kRead_RefKind] empty_table 0
     = Some (\<lparr>fInlinedBody = inlined_add_t_u_v, fReplacementExpr = BoolLiteral 5 False\<rparr>,
             \<lparr>fInlineVarCounter = 0, fSymbolTable = empty_table,
              fVarMap = [param_r \<mapsto> local_var ''t'', param_a \<mapsto> local_var ''u'',
                         param_b \<mapsto> local_var ''v'']\<rparr>)"
    using inlineCall_add_t_u_v by (simp add: inlined_add_t_u_v_def)
  have p: "is_control_statement if_parent" by (simp add: if_parent_def)
  show ?thesis
    using c p ensure_scoped_blocks_inlined_body[of example_context "\<lambda>e. int_type" writes_r
        add_decls 5 0 "[VariableReference 0 (local_var ''t'') kRead_RefKind,
        VariableReference 0 (local_var ''u'') kRead_RefKind,
        VariableReference 0 (local_var ''v'') kRead_RefKind]" empty_table 0
        "\<lparr>fInlinedBody = inlined_add_t_u_v, fReplacementExpr = BoolLiteral 5 False\<rparr>"
        "\<lparr>fInlineVarCounter = 0, fSymbolTable = empty_table,
              fVarMap = [param_r \<mapsto> local_var ''t'', param_a \<mapsto> local_var ''u'',
                         param_b \<mapsto> local_var ''v'']\<rparr>" if_parent]
    by (auto simp: inlined_add_t_u_v_def)
qed

section \<open>Candidates and short-circuit evaluation\<close>






























end
